theory Spec2Isabelle
  imports Complex_Main "HOL-Library.Char_ord" "HOL-Library.List_Lexorder"
begin

section \<open>Data model of CE\_train.py\<close>

text \<open>
  The training script works on objects unpickled from files (datasets, the vocabulary,
  checkpoints), on the parsed command line \<open>opt\<close>, and on a handful of classes of
  the \<open>onmt\<close> package.  Python exceptions are values of the type \<open>error\<close>;
  a function that may raise returns \<open>error + 'a\<close> with \<open>Inl\<close> for the raise.
  \<open>WrongObject\<close> stands for the failure of using an unpickled object of the wrong
  class; \<open>MissingDataError\<close> is the error the specification names for missing
  data files: the program defines no such class, and no function below returns it.
  Python integers are \<open>int\<close>, floats that are only passed along are \<open>real\<close>.
\<close>

datatype error =
    AssertionError string
  | FileNotFoundError string
  | StopIterationError
  | KeyError string
  | IndexError
  | ZeroDivisionError
  | WrongObject string
  | SystemExit int
  | RuntimeError string
  | MissingDataError

text \<open>
  An example has the attributes \<open>src\<close> and \<open>tgt\<close> that \<open>batch_size_fn\<close> reads;
  \<open>other_attrs\<close> lists the names of its remaining attributes (\<open>per\<close>,
  \<open>indices\<close>, feature streams), so that \<open>ex_dict\<close> is the key set of its
  \<open>__dict__\<close>.
\<close>

record example =
  src :: "string list"
  tgt :: "string list"
  other_attrs :: "string list"

definition ex_dict :: "example \<Rightarrow> string list" where
  "ex_dict ex = ''src'' # ''tgt'' # other_attrs ex"

record field =
  sequential :: bool
  vocab :: "string list"

text \<open>
  A field set is a Python dictionary from field names to field objects, kept as an
  association list with distinct keys (a dictionary keeps its insertion order).
\<close>

type_synonym fields_t = "(string \<times> field) list"

record dataset =
  examples :: "example list"
  data_type :: string
  ds_fields :: fields_t

text \<open>
  The options the modelled functions read (CE\_opts.py declares them; \<open>gpuid\<close>
  is a list of device numbers, \<open>train_from\<close> is the empty string when unset).
  The parser never leaves \<open>gpuid\<close> empty, see \<open>parse_gpuid\<close> below.
\<close>

record opts =
  data :: string
  save_model :: string
  gpuid :: "int list"
  seed :: int
  rnn_type :: string
  rnn_size :: int
  exp_host :: string
  exp :: string
  start_epoch :: int
  epochs :: int
  start_checkpoint_at :: int
  train_from :: string
  d_train_from :: string
  batch_size :: int
  valid_batch_size :: int
  batch_type :: string
  normalization :: string
  accum_count :: int
  truncated_decoder :: int
  max_generator_batches :: int
  g_optim :: string
  d_optim :: string
  nli_optim :: string
  g_learning_rate :: real
  d_learning_rate :: real
  nli_learning_rate :: real
  max_grad_norm :: real
  learning_rate_decay :: real
  start_decay_at :: int
  adam_beta1 :: real
  adam_beta2 :: real
  adagrad_accumulator_init :: real
  decay_method :: string
  warmup_steps :: int
  copy_attn :: bool
  copy_attn_force :: bool
  label_smoothing :: real

text \<open>
  Modelled from the spec: the class \<open>onmt.Optim\<close> is not among the sources.  The spec's
  Optimizer State couples the scheduling metadata (method, learning rate, decay
  parameters) with a step counter; an optimizer is "created fresh at run start":
  \<open>Optim\<close> builds it with the step counter at 0 and no parameters bound, and
  \<open>set_parameters\<close> binds the parameters of a model.
\<close>

record optim_t =
  o_method :: string
  o_lr :: real
  o_max_grad_norm :: real
  o_lr_decay :: real
  o_start_decay_at :: int
  o_beta1 :: real
  o_beta2 :: real
  o_adagrad_accum :: real
  o_decay_method :: string
  o_warmup_steps :: int
  o_model_size :: int
  o_step :: int
  o_params :: "string list"

definition Optim ::
  "string \<Rightarrow> real \<Rightarrow> real \<Rightarrow> real \<Rightarrow> int \<Rightarrow> real \<Rightarrow> real \<Rightarrow> real \<Rightarrow> string \<Rightarrow> int \<Rightarrow> int \<Rightarrow> optim_t" where
  "Optim method lr mgn lr_decay sda beta1 beta2 adagrad_accum dm warmup model_size =
     \<lparr> o_method = method, o_lr = lr, o_max_grad_norm = mgn, o_lr_decay = lr_decay,
       o_start_decay_at = sda, o_beta1 = beta1, o_beta2 = beta2,
       o_adagrad_accum = adagrad_accum, o_decay_method = dm, o_warmup_steps = warmup,
       o_model_size = model_size, o_step = 0, o_params = [] \<rparr>"

definition set_parameters :: "optim_t \<Rightarrow> string list \<Rightarrow> optim_t" where
  "set_parameters optim ps = optim \<lparr> o_params := ps \<rparr>"

text \<open>
  A checkpoint is the dictionary \<open>torch.load\<close> returns for a checkpoint file: the
  options of the saved run, the epoch it was saved after, and the saved optimizers
  under the keys \<open>g_optim\<close>, \<open>d_optim\<close>, \<open>nli_optim\<close>.
\<close>

record checkpoint =
  ck_opt :: opts
  ck_epoch :: int
  ck_optims :: "string \<rightharpoonup> optim_t"

subsection \<open>Files\<close>

text \<open>
  The file system is a list of paths with the object pickled in each.
  \<open>torch_load\<close> is \<open>torch.load\<close>: it fails on a path that does not exist.
  The \<open>as_\<close> functions stand for the first use of the loaded object as a dataset,
  a vocabulary or a checkpoint, which fails on an object of another class.
\<close>

datatype pt_object =
    DatasetObj dataset
  | VocabObj "(string \<times> string list) list"
  | CheckpointObj checkpoint

type_synonym files = "(string \<times> pt_object) list"

definition torch_load :: "files \<Rightarrow> string \<Rightarrow> error + pt_object" where
  "torch_load fs path =
     (case map_of fs path of None \<Rightarrow> Inl (FileNotFoundError path) | Some ob \<Rightarrow> Inr ob)"

fun as_dataset :: "string \<Rightarrow> pt_object \<Rightarrow> error + dataset" where
  "as_dataset path (DatasetObj d) = Inr d"
| "as_dataset path _ = Inl (WrongObject path)"

fun as_vocab :: "string \<Rightarrow> pt_object \<Rightarrow> error + (string \<times> string list) list" where
  "as_vocab path (VocabObj v) = Inr v"
| "as_vocab path _ = Inl (WrongObject path)"

fun as_checkpoint :: "string \<Rightarrow> pt_object \<Rightarrow> error + checkpoint" where
  "as_checkpoint path (CheckpointObj c) = Inr c"
| "as_checkpoint path _ = Inl (WrongObject path)"

text \<open>
  \<open>glob.glob(opt.data + '.' + corpus_type + '.[0-9]*.pt')\<close>: the existing paths that
  start with the literal prefix, continue with one digit and then any characters of
  the same path component, and end in \<open>.pt\<close>.  (The prefix \<open>opt.data\<close> is taken
  to contain no glob metacharacter.)  glob returns the matches in directory order,
  here the order of the file list.
\<close>

fun startswith :: "string \<Rightarrow> string \<Rightarrow> bool" where
  "startswith s [] = True"
| "startswith [] (p # ps) = False"
| "startswith (c # cs) (p # ps) = (c = p \<and> startswith cs ps)"

definition endswith :: "string \<Rightarrow> string \<Rightarrow> bool" where
  "endswith s suf = startswith (rev s) (rev suf)"

definition is_digit :: "char \<Rightarrow> bool" where
  "is_digit c = (c \<in> set ''0123456789'')"

definition shard_match :: "string \<Rightarrow> string \<Rightarrow> bool" where
  "shard_match pre path =
     (startswith path pre \<and>
      (case drop (length pre) path of
         [] \<Rightarrow> False
       | c # rest \<Rightarrow> is_digit c \<and> endswith rest ''.pt'' \<and> CHR ''/'' \<notin> set rest))"

definition glob_shards :: "files \<Rightarrow> string \<Rightarrow> string list" where
  "glob_shards fs pre = filter (shard_match pre) (map fst fs)"

section \<open>Effects\<close>

text \<open>
  What a run does to the outside world, in the order it does it: files read by
  \<open>torch.load\<close>, batch iterators created and batches handed out by a
  \<open>DatasetIter\<close>, the device and seed set at startup, the message written to
  standard error, and the calls into the trainer.  Console output by \<open>print\<close> is
  not recorded.
\<close>

record OrderedIterator =
  oi_dataset :: dataset
  oi_batch_size :: int
  oi_batch_size_fn :: "(example \<Rightarrow> int \<Rightarrow> int \<Rightarrow> int) option"
  oi_device :: int
  oi_train :: bool
  oi_sort :: bool
  oi_sort_within_batch :: bool
  oi_repeat :: bool

datatype 'b event =
    TorchLoad string
  | NewIterator OrderedIterator
  | Batch 'b
  | RandomSeed int
  | CudaSetDevice int
  | CudaSeed int
  | StderrWrite string
  | CrayonSetup string string
  | TrainerTrain int
  | TrainerValidate
  | RemoteLog string real
  | EpochStep real int
  | DropCheckpoint int

section \<open>load\_dataset: the lazy sequence of datasets\<close>

text \<open>
  \<open>load_dataset\<close> is a Python generator function.  Calling it runs none of its body
  and returns a generator object; each \<open>next\<close> runs the body up to the following
  \<open>yield\<close>.  The generator object is its resumption point: \<open>Created\<close> before
  the first \<open>next\<close>, \<open>InLoop\<close> suspended at the \<open>yield\<close> of the \<open>for\<close> loop with
  the paths still to visit, \<open>AtSingle\<close> suspended at the \<open>yield\<close> of the
  \<open>else\<close> branch, \<open>Finished\<close> after it returned or raised.
  A \<open>next\<close> gives the effects it had, its outcome and the generator afterwards.
\<close>

datatype generator =
    Created string
  | InLoop string "string list"
  | AtSingle
  | Finished

datatype 'a outcome = Yield 'a | StopIteration | Raise error

definition load_dataset :: "string \<Rightarrow> generator" where
  "load_dataset corpus_type = Created corpus_type"

definition dataset_loader :: "files \<Rightarrow> string \<Rightarrow> string \<Rightarrow> error + dataset" where
  "dataset_loader fs pt_file corpus_type =
     (case torch_load fs pt_file of
        Inl e \<Rightarrow> Inl e
      | Inr ob \<Rightarrow> as_dataset pt_file ob)"

text \<open>\<open>sorted(glob.glob(...))\<close>: Python sorts strings by code point, lexicographically.\<close>

definition shard_paths :: "files \<Rightarrow> opts \<Rightarrow> string \<Rightarrow> string list" where
  "shard_paths fs opt corpus_type =
     sort (glob_shards fs (data opt @ ''.'' @ corpus_type @ ''.''))"

definition yield_loaded ::
  "files \<Rightarrow> string \<Rightarrow> string \<Rightarrow> generator \<Rightarrow> 'b event list \<times> dataset outcome \<times> generator" where
  "yield_loaded fs pt corpus_type suspended =
     (case dataset_loader fs pt corpus_type of
        Inl e \<Rightarrow> ([TorchLoad pt], Raise e, Finished)
      | Inr d \<Rightarrow> ([TorchLoad pt], Yield d, suspended))"

fun for_pts ::
  "files \<Rightarrow> string \<Rightarrow> string list \<Rightarrow> 'b event list \<times> dataset outcome \<times> generator" where
  "for_pts fs corpus_type [] = ([], StopIteration, Finished)"
| "for_pts fs corpus_type (pt # pts) = yield_loaded fs pt corpus_type (InLoop corpus_type pts)"

fun gen_next ::
  "files \<Rightarrow> opts \<Rightarrow> generator \<Rightarrow> 'b event list \<times> dataset outcome \<times> generator" where
  "gen_next fs opt (Created corpus_type) =
     (if corpus_type \<notin> set [''train'', ''valid'']
      then ([], Raise (AssertionError []), Finished)
      else let pts = shard_paths fs opt corpus_type in
        if pts \<noteq> [] then for_pts fs corpus_type pts
        else let pt = data opt @ ''.'' @ corpus_type @ ''.pt'' in
          yield_loaded fs pt corpus_type AtSingle)"
| "gen_next fs opt (InLoop corpus_type pts) = for_pts fs corpus_type pts"
| "gen_next fs opt AtSingle = ([], StopIteration, Finished)"
| "gen_next fs opt Finished = ([], StopIteration, Finished)"

text \<open>
  \<open>list(g)\<close> for a generator \<open>g\<close> of \<open>load_dataset\<close>: the datasets it yields
  until it stops or raises.  The \<open>for\<close> loop visits each path once, so the
  iteration ends.
\<close>

fun gen_size :: "files \<Rightarrow> generator \<Rightarrow> nat" where
  "gen_size fs (Created c) = length fs + 2"
| "gen_size fs (InLoop c pts) = length pts + 1"
| "gen_size fs AtSingle = 1"
| "gen_size fs Finished = 0"

lemma length_shard_paths: "length (shard_paths fs opt c) \<le> length fs"
proof -
  have "length (glob_shards fs p) \<le> length (map fst fs)" for p
    unfolding glob_shards_def by (rule length_filter_le)
  then show ?thesis by (simp add: shard_paths_def)
qed

lemma yield_loaded_size:
  "yield_loaded fs pt c g = (evs, Yield d, g') \<Longrightarrow> g' = g"
  by (auto simp: yield_loaded_def split: sum.splits)

lemma for_pts_size:
  "for_pts fs c pts = (evs, Yield d, g') \<Longrightarrow> gen_size fs g' < length pts + 1"
  by (cases pts) (auto dest: yield_loaded_size)

lemma gen_next_size:
  assumes "gen_next fs opt g = (evs, Yield d, g')"
  shows "gen_size fs g' < gen_size fs g"
proof (cases g)
  case (Created c)
  show ?thesis
  proof (cases "shard_paths fs opt c = []")
    case True
    with assms Created have "g' = AtSingle"
      by (auto simp: Let_def split: if_splits dest: yield_loaded_size)
    with Created show ?thesis by simp
  next
    case False
    with assms Created have "for_pts fs c (shard_paths fs opt c) = (evs, Yield d, g')"
      by (auto simp: Let_def split: if_splits)
    from for_pts_size [OF this] length_shard_paths [of fs opt c] Created
    show ?thesis by simp
  qed
next
  case (InLoop c pts)
  with assms for_pts_size [of fs c pts evs d g'] show ?thesis by simp
next
  case AtSingle
  with assms show ?thesis by simp
next
  case Finished
  with assms show ?thesis by simp
qed

function drain :: "files \<Rightarrow> opts \<Rightarrow> generator \<Rightarrow> dataset list \<times> error option" where
  "drain fs opt g =
     (case gen_next fs opt g :: unit event list \<times> dataset outcome \<times> generator of
        (evs, Yield d, g') \<Rightarrow> (case drain fs opt g' of (ds, r) \<Rightarrow> (d # ds, r))
      | (evs, StopIteration, g') \<Rightarrow> ([], None)
      | (evs, Raise e, g') \<Rightarrow> ([], Some e))"
  by pat_completeness auto
termination
  by (relation "measure (\<lambda>(fs, opt, g). gen_size fs g)")
    (auto dest: gen_next_size [OF sym])

declare drain.simps [simp del]

text \<open>The index of a numbered shard \<open><prefix>.<role>.<index>.pt\<close>, read as a decimal number.\<close>

definition digit_val :: "char \<Rightarrow> nat" where
  "digit_val c = of_char c - of_char CHR ''0''"

definition decimal :: "string \<Rightarrow> nat" where
  "decimal s = foldl (\<lambda>n c. 10 * n + digit_val c) 0 s"

definition shard_index :: "string \<Rightarrow> string \<Rightarrow> nat" where
  "shard_index pre path = decimal (takeWhile is_digit (drop (length pre) path))"

section \<open>DatasetIter: one batch stream over several datasets\<close>

text \<open>
  The constructor and \<open>_next_dataset_iterator\<close> only call \<open>next\<close> on
  \<open>datasets\<close>, so the model takes any iterator: a state \<open>'g\<close> with a function
  \<open>nxt\<close> for \<open>next\<close>.  In \<open>__iter__\<close> the generator expression
  \<open>(d for d in self.datasets)\<close> draws from the same underlying iterator, which the
  constructor has already advanced by one; both are the field \<open>di_datasets\<close>.

  The class \<open>onmt.io.OrderedIterator\<close> is not among the sources.  An iterator
  object is the record of the arguments it was constructed with, and the batches it
  hands out when iterated (\<open>repeat=False\<close>: finitely many) are given by a
  function \<open>batches\<close> that the model takes as a parameter.
\<close>

record 'g DatasetIter =
  di_datasets :: 'g
  di_fields :: fields_t
  di_batch_size :: int
  di_batch_size_fn :: "(example \<Rightarrow> int \<Rightarrow> int \<Rightarrow> int) option"
  di_device :: int
  di_is_train :: bool
  cur_dataset :: "dataset option"
  cur_iter :: "OrderedIterator option"

type_synonym ('g, 'b) next_fn = "'g \<Rightarrow> 'b event list \<times> dataset outcome \<times> 'g"

definition new_OrderedIterator :: "'g DatasetIter \<Rightarrow> dataset \<Rightarrow> OrderedIterator" where
  "new_OrderedIterator self d =
     \<lparr> oi_dataset = d, oi_batch_size = di_batch_size self,
       oi_batch_size_fn = di_batch_size_fn self, oi_device = di_device self,
       oi_train = di_is_train self, oi_sort = False, oi_sort_within_batch = True,
       oi_repeat = False \<rparr>"

definition next_dataset_iterator ::
  "('g, 'b) next_fn \<Rightarrow> 'g DatasetIter \<Rightarrow>
     'b event list \<times> (error + OrderedIterator option \<times> 'g DatasetIter)" where
  "next_dataset_iterator nxt self =
     (case nxt (di_datasets self) of
        (evs, StopIteration, g') \<Rightarrow> (evs, Inr (None, self \<lparr> di_datasets := g' \<rparr>))
      | (evs, Raise e, g') \<Rightarrow> (evs, Inl e)
      | (evs, Yield d, g') \<Rightarrow>
          (let d' = d \<lparr> ds_fields := di_fields self \<rparr>;
               self' = self \<lparr> di_datasets := g', cur_dataset := Some d' \<rparr>;
               it = new_OrderedIterator self' d'
           in (evs @ [NewIterator it], Inr (Some it, self'))))"

definition DatasetIter_init ::
  "('g, 'b) next_fn \<Rightarrow> 'g \<Rightarrow> fields_t \<Rightarrow> int \<Rightarrow> (example \<Rightarrow> int \<Rightarrow> int \<Rightarrow> int) option \<Rightarrow>
     int \<Rightarrow> bool \<Rightarrow> 'b event list \<times> (error + 'g DatasetIter)" where
  "DatasetIter_init nxt datasets flds bsz bsz_fn device is_train =
     (let self = \<lparr> di_datasets = datasets, di_fields = flds, di_batch_size = bsz,
                    di_batch_size_fn = bsz_fn, di_device = device,
                    di_is_train = is_train, cur_dataset = None, cur_iter = None \<rparr>
      in case next_dataset_iterator nxt self of
           (evs, Inl e) \<Rightarrow> (evs, Inl e)
         | (evs, Inr (None, self')) \<Rightarrow> (evs, Inl (AssertionError []))
         | (evs, Inr (Some it, self')) \<Rightarrow> (evs, Inr (self' \<lparr> cur_iter := Some it \<rparr>)))"

text \<open>
  \<open>__iter__\<close>, consumed to its end: the \<open>while\<close> loop hands out the batches of
  the current iterator and then asks for the next dataset.  The result is what
  happened, in order, and the object afterwards (or the exception that ended the
  iteration).  Over an iterator that never stops the loop does not return: the
  value is \<open>None\<close> then.
\<close>

partial_function (option) DatasetIter_iter ::
  "('g, 'b) next_fn \<Rightarrow> (OrderedIterator \<Rightarrow> 'b list) \<Rightarrow> 'g DatasetIter \<Rightarrow> 'b event list \<Rightarrow>
     ('b event list \<times> (error + 'g DatasetIter)) option" where
  "DatasetIter_iter nxt batches self done =
     (case cur_iter self of
        None \<Rightarrow> Some (done, Inr self)
      | Some it \<Rightarrow>
          (case next_dataset_iterator nxt self of
             (evs, Inl e) \<Rightarrow> Some (done @ map Batch (batches it) @ evs, Inl e)
           | (evs, Inr (r, self')) \<Rightarrow>
               DatasetIter_iter nxt batches (self' \<lparr> cur_iter := r \<rparr>)
                 (done @ map Batch (batches it) @ evs)))"

text \<open>An iterator over a given sequence of datasets, as \<open>iter(list)\<close>.\<close>

fun list_next :: "(dataset list, 'b) next_fn" where
  "list_next [] = ([], StopIteration, [])"
| "list_next (d # ds) = ([], Yield d, ds)"

text \<open>Constructing a \<open>DatasetIter\<close> over an iterator and consuming it to its end.\<close>

definition DatasetIter_run ::
  "('g, 'b) next_fn \<Rightarrow> (OrderedIterator \<Rightarrow> 'b list) \<Rightarrow> 'g \<Rightarrow> fields_t \<Rightarrow> int \<Rightarrow>
     (example \<Rightarrow> int \<Rightarrow> int \<Rightarrow> int) option \<Rightarrow> int \<Rightarrow> bool \<Rightarrow>
     ('b event list \<times> (error + 'g DatasetIter)) option" where
  "DatasetIter_run nxt batches datasets flds bsz bsz_fn device is_train =
     (case DatasetIter_init nxt datasets flds bsz bsz_fn device is_train of
        (evs, Inl e) \<Rightarrow> Some (evs, Inl e)
      | (evs, Inr self) \<Rightarrow> DatasetIter_iter nxt batches self evs)"

section \<open>make\_dataset\_iter\<close>

definition batch_size_fn :: "example \<Rightarrow> int \<Rightarrow> int \<Rightarrow> int" where
  "batch_size_fn new count sofar =
     sofar + max (int (length (tgt new))) (int (length (src new))) + 1"

definition make_dataset_iter ::
  "('g, 'b) next_fn \<Rightarrow> 'g \<Rightarrow> fields_t \<Rightarrow> opts \<Rightarrow> bool \<Rightarrow>
     'b event list \<times> (error + 'g DatasetIter)" where
  "make_dataset_iter nxt datasets flds opt is_train =
     (let bsz = (if is_train then batch_size opt else valid_batch_size opt);
          bsz_fn = (if is_train \<and> batch_type opt = ''tokens'' then Some batch_size_fn else None);
          device = (if gpuid opt \<noteq> [] then hd (gpuid opt) else - 1)
      in DatasetIter_init nxt datasets flds bsz bsz_fn device is_train)"

text \<open>
  The iterator a \<open>DatasetIter\<close> with the given settings creates for a dataset
  (\<open>new_OrderedIterator\<close> after the fields were bound onto the dataset), the
  batches among a sequence of effects, and the settings of a \<open>DatasetIter\<close>.
\<close>

definition bound_iterator ::
  "fields_t \<Rightarrow> int \<Rightarrow> (example \<Rightarrow> int \<Rightarrow> int \<Rightarrow> int) option \<Rightarrow> int \<Rightarrow> bool \<Rightarrow> dataset \<Rightarrow> OrderedIterator" where
  "bound_iterator flds bsz bsz_fn device is_train d =
     \<lparr> oi_dataset = d \<lparr> ds_fields := flds \<rparr>, oi_batch_size = bsz, oi_batch_size_fn = bsz_fn,
       oi_device = device, oi_train = is_train, oi_sort = False,
       oi_sort_within_batch = True, oi_repeat = False \<rparr>"

fun emitted :: "'b event list \<Rightarrow> 'b list" where
  "emitted [] = []"
| "emitted (Batch b # evs) = b # emitted evs"
| "emitted (_ # evs) = emitted evs"

definition same_settings :: "'g DatasetIter \<Rightarrow> fields_t \<Rightarrow> int \<Rightarrow> (example \<Rightarrow> int \<Rightarrow> int \<Rightarrow> int) option \<Rightarrow> int \<Rightarrow> bool \<Rightarrow> bool" where
  "same_settings self flds bsz bsz_fn device is_train =
     (di_fields self = flds \<and> di_batch_size self = bsz \<and> di_batch_size_fn self = bsz_fn \<and>
      di_device self = device \<and> di_is_train self = is_train)"


section \<open>The batches of an OrderedIterator\<close>

text \<open>
  Modelled from the spec: the class \<open>onmt.io.OrderedIterator\<close> and the batching
  beneath it are not among the sources.  Section 4.2 of the specification gives two
  policies: "(a) fixed maximum example count, or (b) dynamic accumulation where a
  batch grows while a caller-supplied cost function [...] stays under a token
  budget", and section 8 adds that a batch does not exceed the budget "except for a
  single oversized example that alone exceeds B (which forms its own batch)".  The
  cost function has the interface of \<open>batch_size_fn\<close>: it takes the new example,
  the number of examples in the batch with it, and the running total, and returns
  the new running total; without a cost function the running total is the example
  count.  Candidates are sorted "within a batch by descending sequence length",
  keeping the order of the shard among equal lengths.
\<close>

fun batch_loop ::
  "(example \<Rightarrow> int \<Rightarrow> int \<Rightarrow> int) \<Rightarrow> int \<Rightarrow> example list \<Rightarrow> int \<Rightarrow> example list \<Rightarrow>
     example list list" where
  "batch_loop f B minibatch sofar [] = (if minibatch = [] then [] else [minibatch])"
| "batch_loop f B minibatch sofar (ex # rest) =
     (if f ex (int (length minibatch) + 1) sofar \<le> B
      then batch_loop f B (minibatch @ [ex]) (f ex (int (length minibatch) + 1) sofar) rest
      else if minibatch = [] then [ex] # batch_loop f B [] 0 rest
      else if f ex 1 0 \<le> B then minibatch # batch_loop f B [ex] (f ex 1 0) rest
      else minibatch # [ex] # batch_loop f B [] 0 rest)"

definition count_fn :: "example \<Rightarrow> int \<Rightarrow> int \<Rightarrow> int" where
  "count_fn new count sofar = count"

definition sort_within_batch :: "example list \<Rightarrow> example list" where
  "sort_within_batch b = sort_key (\<lambda>ex. - int (length (src ex))) b"

definition OrderedIterator_batches :: "OrderedIterator \<Rightarrow> example list list" where
  "OrderedIterator_batches it =
     map (if oi_sort_within_batch it then sort_within_batch else id)
       (batch_loop (case oi_batch_size_fn it of None \<Rightarrow> count_fn | Some f \<Rightarrow> f)
          (oi_batch_size it) [] 0 (examples (oi_dataset it)))"

text \<open>The total cost of a batch under the token policy, as the specification writes it.\<close>

definition token_cost :: "example list \<Rightarrow> int" where
  "token_cost b = (\<Sum>ex\<leftarrow>b. max (int (length (tgt ex))) (int (length (src ex))) + 1)"

section \<open>load\_fields\<close>

text \<open>
  \<open>load_fields_from_vocab\<close> (of \<open>onmt.io\<close>, not among the sources) is a parameter:
  it turns the unpickled vocabulary and the data type into a field set with one
  field object of its own per name.  The dictionary comprehension keeps the fields
  whose name is an attribute of the first example; it reads
  \<open>dataset.examples[0]\<close> once per field, so an empty dataset raises only when there
  is a field.  The assignment reads \<open>fields['tgt']\<close> first and then
  \<open>fields['per']\<close>.  The argument \<open>checkpoint\<close> is not used.
\<close>

definition set_vocab :: "string \<Rightarrow> string list \<Rightarrow> fields_t \<Rightarrow> fields_t" where
  "set_vocab k v flds = map (\<lambda>(k', f). if k' = k then (k', f \<lparr> vocab := v \<rparr>) else (k', f)) flds"

definition load_fields ::
  "((string \<times> string list) list \<Rightarrow> string \<Rightarrow> fields_t) \<Rightarrow> files \<Rightarrow> opts \<Rightarrow> dataset \<Rightarrow> string \<Rightarrow>
     checkpoint option \<Rightarrow> 'b event list \<times> (error + fields_t)" where
  "load_fields fields_from_vocab fs opt first_dataset dtype checkpoint =
     (let path = data opt @ ''.vocab.pt'' in
      case torch_load fs path of
        Inl e \<Rightarrow> ([TorchLoad path], Inl e)
      | Inr ob \<Rightarrow>
         (case as_vocab path ob of
            Inl e \<Rightarrow> ([TorchLoad path], Inl e)
          | Inr raw \<Rightarrow>
             (let flds0 = fields_from_vocab raw dtype in
              if flds0 \<noteq> [] \<and> examples first_dataset = []
              then ([TorchLoad path], Inl IndexError)
              else
                (let flds1 = filter (\<lambda>(k, f). k \<in> set (ex_dict (hd (examples first_dataset)))) flds0
                 in case map_of flds1 ''tgt'' of
                      None \<Rightarrow> ([TorchLoad path], Inl (KeyError ''tgt''))
                    | Some t \<Rightarrow>
                       (case map_of flds1 ''per'' of
                          None \<Rightarrow> ([TorchLoad path], Inl (KeyError ''per''))
                        | Some p \<Rightarrow>
                           (let flds2 = set_vocab ''per'' (vocab t) flds1
                            in if dtype = ''text'' \<and> map_of flds2 ''src'' = None
                               then ([TorchLoad path], Inl (KeyError ''src''))
                               else ([TorchLoad path], Inr flds2)))))))"

section \<open>build\_optim\<close>

text \<open>
  \<open>build_optim\<close> takes the parameters of the model (\<open>model.parameters()\<close>).  The
  first branch is the source's restore branch with its condition as written,
  \<open>opt.train_from and checkpoint and False\<close>; loading the saved optimizer's own
  state dictionary into it leaves it as it is.
\<close>

definition build_optim ::
  "opts \<Rightarrow> string list \<Rightarrow> checkpoint option \<Rightarrow> string \<Rightarrow> string \<Rightarrow> real \<Rightarrow> error + optim_t" where
  "build_optim opt params checkpoint typ optim learning_rate =
     (if train_from opt \<noteq> [] \<and> checkpoint \<noteq> None \<and> False
      then (case checkpoint of
              None \<Rightarrow> Inl (KeyError typ)
            | Some ck \<Rightarrow>
               (case ck_optims ck typ of
                  None \<Rightarrow> Inl (KeyError typ)
                | Some saved \<Rightarrow> Inr (set_parameters saved params)))
      else Inr (set_parameters
                  (Optim optim learning_rate (max_grad_norm opt) (learning_rate_decay opt)
                     (start_decay_at opt) (adam_beta1 opt) (adam_beta2 opt)
                     (adagrad_accumulator_init opt) (decay_method opt) (warmup_steps opt)
                     (rnn_size opt))
                  params))"

section \<open>The trainer and train\_model\<close>

text \<open>
  The classes \<open>onmt.Trainer\<close>, \<open>onmt.Statistics\<close> and the loss classes are not
  among the sources.  A loss object and a trainer are the records of the arguments
  they are constructed with (the model stands for its generator in a loss object,
  the last flag of a loss object says whether \<open>.cuda()\<close> was called on it); what
  the methods of the trainer and of the statistics return is given by the functions
  of an \<open>ext\<close> record, together with the other collaborators outside the sources.
  The calls into the trainer are recorded as effects; the methods are taken to
  return normally.  \<open>cuda_set_device\<close> is \<open>torch.cuda.set_device\<close>: the
  exception it raises for the given device, if any.  \<open>sru_check\<close> is what the
  argparse action \<open>CheckSRU\<close> of \<open>onmt.modules.SRU\<close> raises, if anything, when
  the command line asks for the RNN type \<open>SRU\<close>.  The shards after the first are read while \<open>trainer.train\<close>
  consumes the iterator, inside the effect \<open>TrainerTrain\<close>.
\<close>

datatype 'm loss_compute =
    CopyGeneratorLossCompute 'm "string list" bool bool
  | NMTLossCompute 'm "string list" real bool

record 'm Trainer =
  t_model :: 'm
  t_disc :: 'm
  t_nli :: 'm
  t_train_loss :: "'m loss_compute"
  t_valid_loss :: "'m loss_compute"
  t_g_optim :: optim_t
  t_d_optim :: optim_t
  t_nli_optim :: optim_t
  t_trunc_size :: int
  t_shard_size :: int
  t_data_type :: string
  t_norm_method :: string
  t_accum_count :: int

record ('m, 'st) ext =
  cuda_is_available :: bool
  cuda_set_device :: "int \<Rightarrow> error option"
  sru_check :: "error option"
  load_fields_from_vocab :: "(string \<times> string list) list \<Rightarrow> string \<Rightarrow> fields_t"
  collect_features :: "fields_t \<Rightarrow> string \<Rightarrow> string list"
  make_base_model ::
    "opts \<Rightarrow> fields_t \<Rightarrow> bool \<Rightarrow> checkpoint option \<Rightarrow> checkpoint option \<Rightarrow> 'm \<times> 'm \<times> 'm"
  data_parallel :: "'m \<Rightarrow> int list \<Rightarrow> 'm"
  use_gpu :: "opts \<Rightarrow> bool"
  parameters :: "'m \<Rightarrow> string list"
  trainer_train :: "'m Trainer \<Rightarrow> generator DatasetIter \<Rightarrow> int \<Rightarrow> 'st \<times> 'm Trainer"
  trainer_validate :: "'m Trainer \<Rightarrow> generator DatasetIter \<Rightarrow> 'st"
  trainer_epoch_step :: "'m Trainer \<Rightarrow> real \<Rightarrow> int \<Rightarrow> 'm Trainer"
  n_batch :: "'st \<Rightarrow> int"
  ppl :: "'st \<Rightarrow> real"

definition make_loss_compute ::
  "(opts \<Rightarrow> bool) \<Rightarrow> 'm \<Rightarrow> string list \<Rightarrow> opts \<Rightarrow> 'm loss_compute" where
  "make_loss_compute gpu model tgt_vocab opt =
     (if copy_attn opt
      then CopyGeneratorLossCompute model tgt_vocab (copy_attn_force opt) (gpu opt)
      else NMTLossCompute model tgt_vocab (label_smoothing opt) (gpu opt))"

text \<open>
  The body of the \<open>for epoch\<close> loop of \<open>train_model\<close>.  The division in the
  report of the training accuracy raises when \<open>train_stats.n_batch\<close> is zero.
\<close>

definition train_epoch ::
  "('m, 'st) ext \<Rightarrow> files \<Rightarrow> opts \<Rightarrow> opts \<Rightarrow> fields_t \<Rightarrow> 'm Trainer \<Rightarrow> int \<Rightarrow>
     'b event list \<times> (error + 'm Trainer)" where
  "train_epoch ext fs opt model_opt flds trainer epoch =
     (case make_dataset_iter (gen_next fs opt) (load_dataset ''train'') flds opt True of
        (evs1, Inl e) \<Rightarrow> (evs1, Inl e)
      | (evs1, Inr train_iter) \<Rightarrow>
         (case trainer_train ext trainer train_iter epoch of
            (train_stats, trainer1) \<Rightarrow>
              if n_batch ext train_stats = 0
              then (evs1 @ [TrainerTrain epoch], Inl ZeroDivisionError)
              else
               (case make_dataset_iter (gen_next fs opt) (load_dataset ''valid'') flds opt False of
                  (evs2, Inl e) \<Rightarrow> (evs1 @ [TrainerTrain epoch] @ evs2, Inl e)
                | (evs2, Inr valid_iter) \<Rightarrow>
                   (let valid_stats = trainer_validate ext trainer1 valid_iter;
                        logs = (if exp_host opt \<noteq> []
                                then [RemoteLog ''train'' (o_lr (t_g_optim trainer1)),
                                      RemoteLog ''valid'' (o_lr (t_g_optim trainer1))]
                                else []);
                        trainer2 = trainer_epoch_step ext trainer1 (ppl ext valid_stats) epoch;
                        ckpt = (if epoch \<ge> start_checkpoint_at opt
                                then [DropCheckpoint epoch] else [])
                    in (evs1 @ [TrainerTrain epoch] @ evs2 @ [TrainerValidate] @ logs @
                          [EpochStep (ppl ext valid_stats) epoch] @ ckpt,
                        Inr trainer2)))))"

fun epoch_loop ::
  "('m, 'st) ext \<Rightarrow> files \<Rightarrow> opts \<Rightarrow> opts \<Rightarrow> fields_t \<Rightarrow> 'm Trainer \<Rightarrow> int list \<Rightarrow>
     'b event list \<times> (error + 'm Trainer)" where
  "epoch_loop ext fs opt model_opt flds trainer [] = ([], Inr trainer)"
| "epoch_loop ext fs opt model_opt flds trainer (epoch # rest) =
     (case train_epoch ext fs opt model_opt flds trainer epoch of
        (evs, Inl e) \<Rightarrow> (evs, Inl e)
      | (evs, Inr trainer') \<Rightarrow>
         (case epoch_loop ext fs opt model_opt flds trainer' rest of
            (evs', r) \<Rightarrow> (evs @ evs', r)))"

definition train_model ::
  "('m, 'st) ext \<Rightarrow> files \<Rightarrow> opts \<Rightarrow> 'm \<Rightarrow> 'm \<Rightarrow> 'm \<Rightarrow> fields_t \<Rightarrow> optim_t \<Rightarrow> optim_t \<Rightarrow> optim_t \<Rightarrow>
     string \<Rightarrow> opts \<Rightarrow> 'b event list \<times> (error + 'm Trainer)" where
  "train_model ext fs opt model disc nli flds g_opt d_opt nli_opt dtype model_opt =
     (case map_of flds ''tgt'' of
        None \<Rightarrow> ([], Inl (KeyError ''tgt''))
      | Some t \<Rightarrow>
         (let train_loss = make_loss_compute (use_gpu ext) model (vocab t) opt;
              valid_loss = make_loss_compute (use_gpu ext) model (vocab t) opt;
              trunc_size = truncated_decoder opt;
              shard_size = max_generator_batches opt;
              trainer = \<lparr> t_model = model, t_disc = disc, t_nli = nli,
                          t_train_loss = train_loss, t_valid_loss = valid_loss,
                          t_g_optim = g_opt, t_d_optim = d_opt, t_nli_optim = nli_opt,
                          t_trunc_size = trunc_size, t_shard_size = shard_size,
                          t_data_type = dtype, t_norm_method = normalization opt,
                          t_accum_count = accum_count opt \<rparr>
          in epoch_loop ext fs opt model_opt flds trainer [start_epoch opt .. epochs opt]))"

section \<open>main and the module level\<close>

text \<open>
  The block of \<open>main\<close> that loads the checkpoints: it gives the checkpoint, the
  discriminator checkpoint, \<open>model_opt\<close> and the options after the assignment to
  \<open>opt.start_epoch\<close>.
\<close>

definition load_checkpoint :: "files \<Rightarrow> string \<Rightarrow> error + checkpoint" where
  "load_checkpoint fs path =
     (case torch_load fs path of Inl e \<Rightarrow> Inl e | Inr ob \<Rightarrow> as_checkpoint path ob)"

definition main_resume ::
  "files \<Rightarrow> opts \<Rightarrow>
     'b event list \<times> (error + checkpoint option \<times> checkpoint option \<times> opts \<times> opts)" where
  "main_resume fs opt =
     (if train_from opt \<noteq> [] then
        (case load_checkpoint fs (train_from opt) of
           Inl e \<Rightarrow> ([TorchLoad (train_from opt)], Inl e)
         | Inr checkpoint \<Rightarrow>
            (let model_opt = ck_opt checkpoint;
                 opt' = opt \<lparr> start_epoch := ck_epoch checkpoint + 1 \<rparr>
             in if d_train_from opt' \<noteq> [] then
                  (case load_checkpoint fs (d_train_from opt') of
                     Inl e \<Rightarrow> ([TorchLoad (train_from opt), TorchLoad (d_train_from opt')], Inl e)
                   | Inr d_checkpoint \<Rightarrow>
                      ([TorchLoad (train_from opt), TorchLoad (d_train_from opt')],
                       Inr (Some checkpoint, Some d_checkpoint, model_opt, opt')))
                else ([TorchLoad (train_from opt)], Inr (Some checkpoint, None, model_opt, opt'))))
      else ([], Inr (None, None, opt, opt)))"

definition collect_report_features ::
  "(fields_t \<Rightarrow> string \<Rightarrow> string list) \<Rightarrow> fields_t \<Rightarrow> error + unit" where
  "collect_report_features features flds =
     (case find (\<lambda>feat. map_of flds feat = None) (features flds ''src'' @ features flds ''tgt'') of
        Some feat \<Rightarrow> Inl (KeyError feat)
      | None \<Rightarrow> Inr ())"

definition build_model ::
  "('m, 'st) ext \<Rightarrow> opts \<Rightarrow> opts \<Rightarrow> fields_t \<Rightarrow> checkpoint option \<Rightarrow> checkpoint option \<Rightarrow>
     'm \<times> 'm \<times> 'm" where
  "build_model ext model_opt opt flds checkpoint d_checkpoint =
     (case make_base_model ext model_opt flds (use_gpu ext opt) checkpoint d_checkpoint of
        (model, disc, nli) \<Rightarrow>
          (if length (gpuid opt) > 1 then data_parallel ext model (gpuid opt) else model,
           disc, nli))"

text \<open>
  \<open>main\<close>.  \<open>tally_parameters\<close> only prints and \<open>check_save_model_path\<close> only
  creates the directory of the checkpoints; they are left out.  The result is the
  effects of the run and either the exception that ended it or the trainer after
  the last epoch.
\<close>

definition main ::
  "('m, 'st) ext \<Rightarrow> files \<Rightarrow> opts \<Rightarrow> 'b event list \<times> (error + 'm Trainer)" where
  "main ext fs opt =
     (case gen_next fs opt (load_dataset ''train'') of
        (evs1, Raise e, g) \<Rightarrow> (evs1, Inl e)
      | (evs1, StopIteration, g) \<Rightarrow> (evs1, Inl StopIterationError)
      | (evs1, Yield first_dataset, g) \<Rightarrow>
         (case main_resume fs opt of
            (evs2, Inl e) \<Rightarrow> (evs1 @ evs2, Inl e)
          | (evs2, Inr (checkpoint, d_checkpoint, model_opt, opt')) \<Rightarrow>
             (case load_fields (load_fields_from_vocab ext) fs opt' first_dataset
                     (data_type first_dataset) checkpoint of
                (evs3, Inl e) \<Rightarrow> (evs1 @ evs2 @ evs3, Inl e)
              | (evs3, Inr flds) \<Rightarrow>
                 (case collect_report_features (collect_features ext) flds of
                    Inl e \<Rightarrow> (evs1 @ evs2 @ evs3, Inl e)
                  | Inr u \<Rightarrow>
                     (case build_model ext model_opt opt' flds checkpoint d_checkpoint of
                        (model, disc, nli) \<Rightarrow>
                         (case build_optim opt' (parameters ext model) checkpoint ''g_optim''
                                 (g_optim opt') (g_learning_rate opt') of
                            Inl e \<Rightarrow> (evs1 @ evs2 @ evs3, Inl e)
                          | Inr g_opt \<Rightarrow>
                             (case build_optim opt' (parameters ext disc) checkpoint ''d_optim''
                                     (d_optim opt') (d_learning_rate opt') of
                                Inl e \<Rightarrow> (evs1 @ evs2 @ evs3, Inl e)
                              | Inr d_opt \<Rightarrow>
                                 (case build_optim opt' (parameters ext nli) checkpoint
                                         ''nli_optim'' (nli_optim opt')
                                         (nli_learning_rate opt') of
                                    Inl e \<Rightarrow> (evs1 @ evs2 @ evs3, Inl e)
                                  | Inr nli_opt \<Rightarrow>
                                     (case train_model ext fs opt' model disc nli flds g_opt
                                             d_opt nli_opt (data_type first_dataset)
                                             model_opt of
                                        (evs4, r) \<Rightarrow> (evs1 @ evs2 @ evs3 @ evs4, r))))))))))"








fun trained_epochs :: "'b event list \<Rightarrow> int list" where
  "trained_epochs [] = []"
| "trained_epochs (TrainerTrain e # evs) = e # trained_epochs evs"
| "trained_epochs (_ # evs) = trained_epochs evs"

text \<open>
  The phases of an epoch among a sequence of effects: the calls of
  \<open>trainer.train\<close>, \<open>trainer.validate\<close>, \<open>trainer.epoch_step\<close> and
  \<open>trainer.drop_checkpoint\<close>.
\<close>

fun phases :: "'b event list \<Rightarrow> 'b event list" where
  "phases [] = []"
| "phases (TrainerTrain e # evs) = TrainerTrain e # phases evs"
| "phases (TrainerValidate # evs) = TrainerValidate # phases evs"
| "phases (EpochStep p e # evs) = EpochStep p e # phases evs"
| "phases (DropCheckpoint e # evs) = DropCheckpoint e # phases evs"
| "phases (_ # evs) = phases evs"

text \<open>
  An effect with the perplexity of an \<open>EpochStep\<close> set to zero, and the phases of
  one completed epoch with a given validation perplexity.
\<close>

fun forget_ppl :: "'b event \<Rightarrow> 'b event" where
  "forget_ppl (EpochStep p e) = EpochStep 0 e"
| "forget_ppl ev = ev"

definition epoch_phases :: "opts \<Rightarrow> int \<Rightarrow> real \<Rightarrow> 'b event list" where
  "epoch_phases opt epoch p =
     [TrainerTrain epoch, TrainerValidate, EpochStep p epoch] @
     (if start_checkpoint_at opt \<le> epoch then [DropCheckpoint epoch] else [])"

text \<open>
  A batch is within the budget \<open>B\<close> when its total cost does not exceed \<open>B\<close>, or
  when it is a single example whose cost alone exceeds \<open>B\<close>.
\<close>

definition within_budget :: "int \<Rightarrow> example list \<Rightarrow> bool" where
  "within_budget B b = (token_cost b \<le> B \<or> (\<exists>ex. b = [ex] \<and> B < token_cost [ex]))"

section \<open>Concrete inputs\<close>

text \<open>A configuration, datasets and file systems on which the functions are evaluated.\<close>

definition demo_opt :: opts where
  "demo_opt = \<lparr> data = ''demo'', save_model = ''model'', gpuid = [0], seed = - 1,
     rnn_type = ''LSTM'', rnn_size = 500, exp_host = [], exp = [],
     start_epoch = 1, epochs = 2, start_checkpoint_at = 2, train_from = [],
     d_train_from = [], batch_size = 8, valid_batch_size = 32, batch_type = ''tokens'',
     normalization = ''sents'', accum_count = 1, truncated_decoder = 0,
     max_generator_batches = 32, g_optim = ''sgd'', d_optim = ''sgd'', nli_optim = ''sgd'',
     g_learning_rate = 1, d_learning_rate = 1, nli_learning_rate = 1, max_grad_norm = 5,
     learning_rate_decay = 1 / 2, start_decay_at = 8, adam_beta1 = 9 / 10,
     adam_beta2 = 999 / 1000, adagrad_accumulator_init = 0, decay_method = [],
     warmup_steps = 4000, copy_attn = False, copy_attn_force = False,
     label_smoothing = 0 \<rparr>"

definition demo_dataset :: "string \<Rightarrow> dataset" where
  "demo_dataset w = \<lparr> examples = [\<lparr> src = [w], tgt = [w, w], other_attrs = [''per'', ''indices''] \<rparr>],
     data_type = ''text'', ds_fields = [] \<rparr>"

definition two_ten :: files where
  "two_ten = [(''demo.train.2.pt'', DatasetObj (demo_dataset ''two'')),
              (''demo.train.10.pt'', DatasetObj (demo_dataset ''ten''))]"


definition no_files :: files where
  "no_files = []"

definition vocab_fields :: "(string \<times> string list) list \<Rightarrow> string \<Rightarrow> fields_t" where
  "vocab_fields raw dtype = map (\<lambda>(k, v). (k, \<lparr> sequential = True, vocab = v \<rparr>)) raw"

definition demo_files :: files where
  "demo_files =
     [(''demo.train.pt'', DatasetObj (demo_dataset ''a'')),
      (''demo.valid.pt'', DatasetObj (demo_dataset ''b'')),
      (''demo.vocab.pt'', VocabObj [(''src'', [''a'', ''b'']), (''tgt'', [''x'', ''y'']),
                                    (''per'', [''p''])])]"

definition saved_optim :: optim_t where
  "saved_optim = (Optim ''sgd'' 1 5 (1 / 2) 8 (9 / 10) (999 / 1000) 0 [] 4000 500) \<lparr> o_step := 100 \<rparr>"

definition demo_checkpoint :: checkpoint where
  "demo_checkpoint = \<lparr> ck_opt = demo_opt, ck_epoch = 3,
     ck_optims = [''g_optim'' \<mapsto> saved_optim, ''d_optim'' \<mapsto> saved_optim,
                  ''nli_optim'' \<mapsto> saved_optim] \<rparr>"

definition resume_opt :: opts where
  "resume_opt = demo_opt \<lparr> train_from := ''demo_e3.pt'', epochs := 4 \<rparr>"

definition resume_files :: files where
  "resume_files = (''demo_e3.pt'', CheckpointObj demo_checkpoint) # demo_files"

definition token_dataset :: dataset where
  "token_dataset = \<lparr> examples =
       [\<lparr> src = [''a''], tgt = [''x'', ''y''], other_attrs = [''per''] \<rparr>,
        \<lparr> src = [''b''], tgt = [''x'', ''y''], other_attrs = [''per''] \<rparr>,
        \<lparr> src = [''c'', ''d''], tgt = [''x''], other_attrs = [''per''] \<rparr>,
        \<lparr> src = replicate 9 ''e'', tgt = [''x''], other_attrs = [''per''] \<rparr>],
     data_type = ''text'', ds_fields = [] \<rparr>"

definition demo_ext :: "(string, int) ext" where
  "demo_ext = \<lparr> cuda_is_available = True, cuda_set_device = (\<lambda>d. None), sru_check = None,
     load_fields_from_vocab = vocab_fields,
     collect_features = (\<lambda>flds side. []),
     make_base_model = (\<lambda>mo flds gpu c d. (''generator'', ''discriminator'', ''nli'')),
     data_parallel = (\<lambda>m ids. m), use_gpu = (\<lambda>opt. gpuid opt \<noteq> []),
     parameters = (\<lambda>m. [m]), trainer_train = (\<lambda>tr it e. (1, tr)),
     trainer_validate = (\<lambda>tr it. 7), trainer_epoch_step = (\<lambda>tr p e. tr),
     n_batch = (\<lambda>st. st), ppl = (\<lambda>st. real_of_int st) \<rparr>"

definition demo_fields :: fields_t where
  "demo_fields = [(''src'', \<lparr> sequential = True, vocab = [''a'', ''b''] \<rparr>),
      (''tgt'', \<lparr> sequential = True, vocab = [''x'', ''y''] \<rparr>),
      (''per'', \<lparr> sequential = True, vocab = [''x'', ''y''] \<rparr>)]"

definition demo_optim :: optim_t where
  "demo_optim = set_parameters (Optim ''sgd'' 1 5 (1 / 2) 8 (9 / 10) (999 / 1000) 0 [] 4000 500) [''w'']"

definition demo_trainer :: "string Trainer" where
  "demo_trainer = \<lparr> t_model = ''generator'', t_disc = ''discriminator'', t_nli = ''nli'',
     t_train_loss = NMTLossCompute ''generator'' [''x'', ''y''] 0 False,
     t_valid_loss = NMTLossCompute ''generator'' [''x'', ''y''] 0 False,
     t_g_optim = demo_optim, t_d_optim = demo_optim, t_nli_optim = demo_optim,
     t_trunc_size = 0, t_shard_size = 32, t_data_type = ''text'',
     t_norm_method = ''sents'', t_accum_count = 1 \<rparr>"

definition token_dataset2 :: dataset where
  "token_dataset2 = \<lparr> examples =
       [\<lparr> src = [''f'', ''g'', ''h'', ''i''], tgt = [''x''], other_attrs = [''per''] \<rparr>,
        \<lparr> src = [''j''], tgt = [''x'', ''y'', ''z'', ''w''], other_attrs = [''per''] \<rparr>],
     data_type = ''text'', ds_fields = [] \<rparr>"

definition token_files :: files where
  "token_files = [(''demo.train.0.pt'', DatasetObj token_dataset),
                  (''demo.train.1.pt'', DatasetObj token_dataset2)]"


section \<open>Properties of load\_dataset\<close>

lemma shard_paths_two_ten:
  "shard_paths two_ten demo_opt ''train'' = [''demo.train.10.pt'', ''demo.train.2.pt'']"
  by (simp add: shard_paths_def glob_shards_def two_ten_def demo_opt_def shard_match_def
      is_digit_def endswith_def)

lemma dataset_loader_two_ten:
  "dataset_loader two_ten ''demo.train.10.pt'' c = Inr (demo_dataset ''ten'')"
  "dataset_loader two_ten ''demo.train.2.pt'' c = Inr (demo_dataset ''two'')"
  by (simp_all add: dataset_loader_def torch_load_def two_ten_def)

text \<open>
  C2.  The claim: numbered shards are yielded by ascending numeric index, index 2
  before index 10.  The code sorts the paths as strings.  With the two shards
  \<open>demo.train.2.pt\<close> and \<open>demo.train.10.pt\<close> (indices 2 and 10) the generator of
  \<open>load_dataset('train')\<close> yields the dataset of shard 10 first and the dataset of
  shard 2 second.
\<close>

theorem load_dataset_lexicographic_order:
  "shard_index ''demo.train.'' ''demo.train.2.pt'' = 2 \<and>
   shard_index ''demo.train.'' ''demo.train.10.pt'' = 10 \<and>
   drain two_ten demo_opt (load_dataset ''train'') =
     ([demo_dataset ''ten'', demo_dataset ''two''], None)"
proof -
  have s1: "gen_next two_ten demo_opt (Created ''train'') =
     ([TorchLoad ''demo.train.10.pt''] :: unit event list, Yield (demo_dataset ''ten''),
      InLoop ''train'' [''demo.train.2.pt''])"
    by (simp add: shard_paths_two_ten yield_loaded_def dataset_loader_two_ten)
  have s2: "gen_next two_ten demo_opt (InLoop ''train'' [''demo.train.2.pt'']) =
     ([TorchLoad ''demo.train.2.pt''] :: unit event list, Yield (demo_dataset ''two''),
      InLoop ''train'' [])"
    by (simp add: yield_loaded_def dataset_loader_two_ten)
  have s3: "gen_next two_ten demo_opt (InLoop ''train'' []) =
     ([] :: unit event list, StopIteration, Finished)"
    by simp
  have d3: "drain two_ten demo_opt (InLoop ''train'' []) = ([], None)"
    by (subst drain.simps) (simp only: s3 prod.case outcome.case)
  have d2: "drain two_ten demo_opt (InLoop ''train'' [''demo.train.2.pt'']) =
     ([demo_dataset ''two''], None)"
    by (subst drain.simps) (simp only: s2 d3 prod.case outcome.case)
  have d1: "drain two_ten demo_opt (load_dataset ''train'') =
     ([demo_dataset ''ten'', demo_dataset ''two''], None)"
    unfolding load_dataset_def
    by (subst drain.simps) (simp only: s1 d2 prod.case outcome.case)
  have i: "shard_index ''demo.train.'' ''demo.train.2.pt'' = 2"
    "shard_index ''demo.train.'' ''demo.train.10.pt'' = 10"
    by (simp_all add: shard_index_def decimal_def digit_val_def is_digit_def)
  from i d1 show ?thesis by simp
qed

text \<open>
  C7.  The claim: with neither numbered shards nor the singleton file on disk the
  loader fails with a \<open>MissingDataError\<close>, at the first iteration and not at the
  call of \<open>load_dataset\<close>.  On the empty file system the first \<open>next\<close> does not
  raise \<open>MissingDataError\<close>.
\<close>

theorem load_dataset_missing_not_MissingDataError:
  "fst (snd (gen_next no_files demo_opt (load_dataset ''train'')
       :: unit event list \<times> dataset outcome \<times> generator)) \<noteq> Raise MissingDataError"
  by (simp add: load_dataset_def shard_paths_def glob_shards_def no_files_def
      yield_loaded_def dataset_loader_def torch_load_def Let_def)

text \<open>
  C7, amended.  For a corpus role \<open>train\<close> or \<open>valid\<close> with no numbered shard
  matching and no singleton file, calling \<open>load_dataset\<close> only creates the generator
  and touches no file; the first \<open>next\<close> calls \<open>torch.load\<close> on the singleton path
  and ends with the error that \<open>torch.load\<close> raises for a missing file.
\<close>

theorem load_dataset_missing_raises_at_first_next:
  assumes "corpus_type = ''train'' \<or> corpus_type = ''valid''"
    and "glob_shards fs (data opt @ ''.'' @ corpus_type @ ''.'') = []"
    and "data opt @ ''.'' @ corpus_type @ ''.pt'' \<notin> fst ` set fs"
  shows "load_dataset corpus_type = Created corpus_type \<and>
     gen_next fs opt (load_dataset corpus_type) =
       ([TorchLoad (data opt @ ''.'' @ corpus_type @ ''.pt'') :: 'b event],
        Raise (FileNotFoundError (data opt @ ''.'' @ corpus_type @ ''.pt'')), Finished)"
proof -
  from assms(3) have "map_of fs (data opt @ ''.'' @ corpus_type @ ''.pt'') = None"
    by (simp add: map_of_eq_None_iff)
  then have "dataset_loader fs (data opt @ ''.'' @ corpus_type @ ''.pt'') corpus_type =
      Inl (FileNotFoundError (data opt @ ''.'' @ corpus_type @ ''.pt''))"
    by (simp add: dataset_loader_def torch_load_def)
  moreover have "shard_paths fs opt corpus_type = []"
    using assms(2) by (simp add: shard_paths_def)
  ultimately show ?thesis
    using assms(1) by (auto simp: load_dataset_def yield_loaded_def Let_def)
qed

theorem load_dataset_missing_raises_at_first_next_witness:
  "gen_next no_files demo_opt (load_dataset ''valid'') =
     ([TorchLoad ''demo.valid.pt''] :: unit event list,
      Raise (FileNotFoundError ''demo.valid.pt''), Finished)"
proof -
  have h2: "glob_shards no_files (data demo_opt @ ''.'' @ ''valid'' @ ''.'') = []"
    by (simp add: glob_shards_def no_files_def)
  have h3: "data demo_opt @ ''.'' @ ''valid'' @ ''.pt'' \<notin> fst ` set no_files"
    by (simp add: no_files_def)
  have p: "data demo_opt @ ''.'' @ ''valid'' @ ''.pt'' = ''demo.valid.pt''"
    by (simp add: demo_opt_def)
  show ?thesis
    using load_dataset_missing_raises_at_first_next [OF disjI2 [OF refl] h2 h3, THEN conjunct2]
    unfolding p .
qed

section \<open>Properties of DatasetIter\<close>

lemma next_dataset_iterator_list:
  assumes "same_settings self flds bsz bsz_fn device is_train" "di_datasets self = d # ds"
  shows "\<exists>self'. next_dataset_iterator list_next self =
           ([NewIterator (bound_iterator flds bsz bsz_fn device is_train d)],
            Inr (Some (bound_iterator flds bsz bsz_fn device is_train d), self')) \<and>
         same_settings self' flds bsz bsz_fn device is_train \<and> di_datasets self' = ds"
  using assms
  by (simp add: next_dataset_iterator_def same_settings_def new_OrderedIterator_def
      bound_iterator_def Let_def)

lemma next_dataset_iterator_nil:
  assumes "di_datasets self = []"
  shows "next_dataset_iterator list_next self = ([], Inr (None, self \<lparr> di_datasets := [] \<rparr>))"
  using assms by (simp add: next_dataset_iterator_def)

lemma DatasetIter_iter_list:
  fixes batches :: "OrderedIterator \<Rightarrow> 'b list"
  assumes "same_settings self flds bsz bsz_fn device is_train"
    and "di_datasets self = ds" and "cur_iter self = Some it"
  shows "\<exists>self'. DatasetIter_iter list_next batches self done =
      Some (done @ map Batch (batches it) @
            concat (map (\<lambda>d. NewIterator (bound_iterator flds bsz bsz_fn device is_train d) #
                             map Batch (batches (bound_iterator flds bsz bsz_fn device is_train d))) ds),
            Inr self') \<and> cur_iter self' = None"
  using assms
proof (induction ds arbitrary: self it "done")
  case Nil
  then have n: "next_dataset_iterator list_next self = ([] :: 'b event list, Inr (None, self \<lparr> di_datasets := [] \<rparr>))"
    by (simp add: next_dataset_iterator_nil)
  show ?case
    apply (subst DatasetIter_iter.simps)
    apply (simp add: Nil n)
    apply (subst DatasetIter_iter.simps)
    apply simp
    done
next
  case (Cons d ds)
  from next_dataset_iterator_list [OF Cons.prems(1) Cons.prems(2)]
  obtain self1 where s1: "next_dataset_iterator list_next self =
           ([NewIterator (bound_iterator flds bsz bsz_fn device is_train d) :: 'b event],
            Inr (Some (bound_iterator flds bsz bsz_fn device is_train d), self1))"
    and ss: "same_settings self1 flds bsz bsz_fn device is_train" and dd: "di_datasets self1 = ds"
    by blast
  let ?it' = "bound_iterator flds bsz bsz_fn device is_train d"
  let ?self2 = "self1 \<lparr> cur_iter := Some ?it' \<rparr>"
  have ss2: "same_settings ?self2 flds bsz bsz_fn device is_train"
    using ss by (simp add: same_settings_def)
  have dd2: "di_datasets ?self2 = ds" using dd by simp
  have ci2: "cur_iter ?self2 = Some ?it'" by simp
  from Cons.IH [OF ss2 dd2 ci2, of "done @ map Batch (batches it) @ [NewIterator ?it']"]
  obtain self' where r: "DatasetIter_iter list_next batches ?self2
        (done @ map Batch (batches it) @ [NewIterator ?it']) =
      Some ((done @ map Batch (batches it) @ [NewIterator ?it']) @ map Batch (batches ?it') @
            concat (map (\<lambda>d. NewIterator (bound_iterator flds bsz bsz_fn device is_train d) #
                             map Batch (batches (bound_iterator flds bsz bsz_fn device is_train d))) ds),
            Inr self')" and c: "cur_iter self' = None"
    by blast
  show ?case
    apply (subst DatasetIter_iter.simps)
    apply (simp add: Cons.prems(3) s1 r c)
    done
qed

lemma DatasetIter_init_list:
  "\<exists>self. DatasetIter_init list_next (d # ds) flds bsz bsz_fn device is_train =
      ([NewIterator (bound_iterator flds bsz bsz_fn device is_train d)], Inr self) \<and>
     same_settings self flds bsz bsz_fn device is_train \<and> di_datasets self = ds \<and>
     cur_iter self = Some (bound_iterator flds bsz bsz_fn device is_train d)"
  by (simp add: DatasetIter_init_def next_dataset_iterator_def same_settings_def new_OrderedIterator_def
      bound_iterator_def Let_def)

lemma emitted_append: "emitted (xs @ ys) = emitted xs @ emitted ys"
  by (induction xs rule: emitted.induct) simp_all

lemma emitted_Batch: "emitted (map Batch bs) = bs"
  by (induction bs) simp_all

lemma emitted_concat:
  "emitted (concat (map (\<lambda>d. NewIterator (f d) # map Batch (g d)) ds)) = concat (map g ds)"
  by (induction ds) (simp_all add: emitted_append emitted_Batch)


text \<open>
  C3.  A \<open>DatasetIter\<close> built over a sequence of \<open>N \<ge> 1\<close> datasets and consumed
  to its end returns, and what it did is, dataset after dataset in the given order:
  create the batch iterator of the dataset, then hand out every batch of that
  iterator.  So all batches of dataset \<open>k\<close> come before any batch of dataset
  \<open>k+1\<close>, the iterator of dataset \<open>k+1\<close> is created only after the last batch of
  dataset \<open>k\<close>, and every batch is a batch of the iterator of one single dataset.
\<close>

theorem DatasetIter_shard_order:
  fixes batches :: "OrderedIterator \<Rightarrow> 'b list"
  assumes "ds \<noteq> []"
  shows "\<exists>evs self'.
     DatasetIter_run list_next batches ds flds bsz bsz_fn device is_train = Some (evs, Inr self') \<and>
     evs = concat (map (\<lambda>d. NewIterator (bound_iterator flds bsz bsz_fn device is_train d) #
                        map Batch (batches (bound_iterator flds bsz bsz_fn device is_train d))) ds) \<and>
     emitted evs = concat (map (\<lambda>d. batches (bound_iterator flds bsz bsz_fn device is_train d)) ds) \<and>
     cur_iter self' = None"
proof -
  from assms obtain d ds' where ds: "ds = d # ds'" by (cases ds) auto
  let ?mk = "bound_iterator flds bsz bsz_fn device is_train"
  from DatasetIter_init_list [of d ds' flds bsz bsz_fn device is_train]
  obtain self where i: "DatasetIter_init list_next (d # ds') flds bsz bsz_fn device is_train =
      ([NewIterator (?mk d) :: 'b event], Inr self)"
    and ss: "same_settings self flds bsz bsz_fn device is_train" and dd: "di_datasets self = ds'"
    and ci: "cur_iter self = Some (?mk d)" by blast
  from DatasetIter_iter_list [OF ss dd ci, of batches "[NewIterator (?mk d)]"]
  obtain self' where r: "DatasetIter_iter list_next batches self [NewIterator (?mk d)] =
      Some ([NewIterator (?mk d)] @ map Batch (batches (?mk d)) @
            concat (map (\<lambda>d. NewIterator (?mk d) # map Batch (batches (?mk d))) ds'), Inr self')"
    and c: "cur_iter self' = None" by blast
  have e: "emitted (concat (map (\<lambda>d. NewIterator (?mk d) # map Batch (batches (?mk d))) ds)) =
     concat (map (\<lambda>d. batches (?mk d)) ds)"
    by (rule emitted_concat)
  show ?thesis
    using r c e by (simp add: DatasetIter_run_def ds i)
qed


theorem DatasetIter_shard_order_witness:
  "\<exists>evs self'.
     DatasetIter_run list_next (\<lambda>it. map src (examples (oi_dataset it)))
       [demo_dataset ''a'', demo_dataset ''b''] [] 2 None (- 1) True = Some (evs, Inr self') \<and>
     emitted evs = [[''a''], [''b'']]"
  using DatasetIter_shard_order [of "[demo_dataset ''a'', demo_dataset ''b'']"
      "\<lambda>it. map src (examples (oi_dataset it))" "[]" 2 None "- 1" True]
  by (auto simp: bound_iterator_def demo_dataset_def)

section \<open>Properties of make\_dataset\_iter\<close>

lemma DatasetIter_init_settings:
  assumes "DatasetIter_init nxt g flds bsz bsz_fn device is_train = (evs, Inr self)"
  shows "same_settings self flds bsz bsz_fn device is_train \<and>
     (\<exists>d. cur_iter self = Some (bound_iterator flds bsz bsz_fn device is_train d))"
proof -
  obtain evs0 out g' where n: "nxt g = (evs0, out, g')" by (cases "nxt g") auto
  show ?thesis
  proof (cases out)
    case (Yield d)
    with assms n show ?thesis
      by (auto simp: DatasetIter_init_def next_dataset_iterator_def same_settings_def
          new_OrderedIterator_def bound_iterator_def Let_def)
  next
    case StopIteration
    with assms n show ?thesis
      by (simp add: DatasetIter_init_def next_dataset_iterator_def)
  next
    case (Raise e)
    with assms n show ?thesis
      by (simp add: DatasetIter_init_def next_dataset_iterator_def)
  qed
qed

text \<open>
  C10.  A validation iterator (\<open>is_train = False\<close>) is built with the batch size
  \<open>valid_batch_size\<close> and no cost function, also when \<open>batch_type\<close> is
  \<open>tokens\<close>, and so is the batch iterator of its first dataset; an iterator built by
  \<open>make_dataset_iter\<close> has a cost function exactly when it is a training iterator
  and \<open>batch_type\<close> is \<open>tokens\<close>.
\<close>

theorem make_dataset_iter_valid_policy:
  assumes "make_dataset_iter nxt datasets flds opt is_train = (evs, Inr self)"
  shows "(\<not> is_train \<longrightarrow>
       di_batch_size self = valid_batch_size opt \<and> di_batch_size_fn self = None \<and>
       (\<exists>it. cur_iter self = Some it \<and> oi_batch_size it = valid_batch_size opt \<and>
          oi_batch_size_fn it = None)) \<and>
     (di_batch_size_fn self \<noteq> None \<longleftrightarrow> is_train \<and> batch_type opt = ''tokens'')"
proof -
  let ?bsz = "if is_train then batch_size opt else valid_batch_size opt"
  let ?fn = "if is_train \<and> batch_type opt = ''tokens'' then Some batch_size_fn else None"
  let ?dev = "if gpuid opt \<noteq> [] then hd (gpuid opt) else - 1"
  from assms have "DatasetIter_init nxt datasets flds ?bsz ?fn ?dev is_train = (evs, Inr self)"
    by (simp add: make_dataset_iter_def Let_def)
  from DatasetIter_init_settings [OF this]
  show ?thesis by (auto simp: same_settings_def bound_iterator_def)
qed

theorem make_dataset_iter_valid_policy_witness:
  "batch_type demo_opt = ''tokens'' \<and>
   (\<exists>evs self. make_dataset_iter list_next [demo_dataset ''a''] [] demo_opt False
        = (evs :: unit event list, Inr self) \<and>
      di_batch_size self = 32 \<and> di_batch_size_fn self = None)"
proof -
  obtain evs :: "unit event list" and self where
    h: "make_dataset_iter list_next [demo_dataset ''a''] [] demo_opt False = (evs, Inr self)"
    by (simp add: make_dataset_iter_def DatasetIter_init_def next_dataset_iterator_def Let_def)
  from make_dataset_iter_valid_policy [OF h] h show ?thesis
    by (auto simp: demo_opt_def)
qed

section \<open>Properties of load\_fields\<close>

lemma map_of_set_vocab:
  "map_of (set_vocab k v flds) k' =
     (if k' = k then map_option (\<lambda>f. f \<lparr> vocab := v \<rparr>) (map_of flds k) else map_of flds k')"
  by (induction flds) (auto simp: set_vocab_def)

lemma load_fields_Inr:
  assumes "load_fields lffv fs opt ds dtype ck = (evs, Inr flds)"
  shows "\<exists>p t. map_of flds ''per'' = Some p \<and> map_of flds ''tgt'' = Some t \<and> vocab p = vocab t"
  using assms
  by (auto simp: load_fields_def Let_def map_of_set_vocab split: sum.splits if_splits option.splits)

text \<open>
  C4.  Whenever \<open>load_fields\<close> returns a field set, the field set has a field
  \<open>per\<close> and a field \<open>tgt\<close> and the vocabulary of \<open>per\<close> is the vocabulary of
  \<open>tgt\<close>, for every dataset and data type.  The later operation of the sources
  that handles the field set, \<open>_next_dataset_iterator\<close>, leaves the field set of
  the \<open>DatasetIter\<close> as it is and binds that same field set onto the dataset.
\<close>

theorem load_fields_per_vocab_is_tgt_vocab:
  "(load_fields lffv fs opt ds dtype ck = (evs, Inr flds) \<longrightarrow>
      (\<exists>p t. map_of flds ''per'' = Some p \<and> map_of flds ''tgt'' = Some t \<and> vocab p = vocab t)) \<and>
   (next_dataset_iterator nxt self = (evs', Inr (r, self')) \<longrightarrow>
      di_fields self' = di_fields self \<and>
      (\<forall>it. r = Some it \<longrightarrow> ds_fields (oi_dataset it) = di_fields self))"
proof -
  have "di_fields self' = di_fields self \<and>
      (\<forall>it. r = Some it \<longrightarrow> ds_fields (oi_dataset it) = di_fields self)"
    if "next_dataset_iterator nxt self = (evs', Inr (r, self'))"
  proof -
    obtain e0 out g' where n: "nxt (di_datasets self) = (e0, out, g')"
      by (cases "nxt (di_datasets self)") auto
    show ?thesis
      using that n
      by (cases out) (auto simp: next_dataset_iterator_def new_OrderedIterator_def Let_def)
  qed
  with load_fields_Inr show ?thesis by blast
qed

theorem load_fields_per_vocab_is_tgt_vocab_witness:
  "\<exists>evs flds p self'.
     load_fields vocab_fields demo_files demo_opt (demo_dataset ''a'') ''text'' None
       = (evs :: unit event list, Inr flds) \<and>
     map_of flds ''per'' = Some p \<and> vocab p = [''x'', ''y''] \<and>
     next_dataset_iterator list_next
       \<lparr> di_datasets = [demo_dataset ''b''], di_fields = flds, di_batch_size = 2,
         di_batch_size_fn = None, di_device = - 1, di_is_train = True,
         cur_dataset = None, cur_iter = None \<rparr>
       = ([NewIterator (bound_iterator flds 2 None (- 1) True (demo_dataset ''b''))] :: unit event list,
          Inr (Some (bound_iterator flds 2 None (- 1) True (demo_dataset ''b'')), self')) \<and>
     di_fields self' = flds"
proof -
  define flds where "flds = [(''src'', \<lparr> sequential = True, vocab = [''a'', ''b''] \<rparr>),
      (''tgt'', \<lparr> sequential = True, vocab = [''x'', ''y''] \<rparr>),
      (''per'', \<lparr> sequential = True, vocab = [''x'', ''y''] \<rparr>)]"
  have l: "load_fields vocab_fields demo_files demo_opt (demo_dataset ''a'') ''text'' None
       = ([TorchLoad ''demo.vocab.pt''] :: unit event list, Inr flds)"
    by (simp add: load_fields_def torch_load_def demo_files_def demo_opt_def vocab_fields_def
        demo_dataset_def ex_dict_def set_vocab_def flds_def)
  let ?self = "\<lparr> di_datasets = [demo_dataset ''b''], di_fields = flds, di_batch_size = 2,
         di_batch_size_fn = None, di_device = - 1, di_is_train = True,
         cur_dataset = None, cur_iter = None \<rparr>"
  obtain self' where n: "next_dataset_iterator list_next ?self
       = ([NewIterator (bound_iterator flds 2 None (- 1) True (demo_dataset ''b''))] :: unit event list,
          Inr (Some (bound_iterator flds 2 None (- 1) True (demo_dataset ''b'')), self'))"
    by (simp add: next_dataset_iterator_def new_OrderedIterator_def bound_iterator_def Let_def)
  from load_fields_per_vocab_is_tgt_vocab [THEN conjunct1, THEN mp, OF l]
  have a: "\<exists>p t. map_of flds ''per'' = Some p \<and> map_of flds ''tgt'' = Some t \<and> vocab p = vocab t" .
  from load_fields_per_vocab_is_tgt_vocab [THEN conjunct2, THEN mp, OF n]
  have b: "di_fields self' = flds" by simp
  from a
  obtain p where "map_of flds ''per'' = Some p" "vocab p = [''x'', ''y'']"
    by (auto simp: flds_def)
  with l n b show ?thesis by blast
qed


section \<open>Properties of build\_optim\<close>

text \<open>
  C1.  The claim: on a resumed run \<open>build_optim\<close> restores each optimizer from the
  checkpoint, step counter included.  With \<open>train_from\<close> set and a checkpoint
  whose saved generator optimizer has made 100 steps, the optimizer that
  \<open>build_optim\<close> returns does not have the saved step counter.
\<close>

theorem build_optim_not_restored:
  "train_from resume_opt \<noteq> [] \<and>
   ck_optims demo_checkpoint ''g_optim'' = Some saved_optim \<and>
   map_sum id o_step
     (build_optim resume_opt [''w''] (Some demo_checkpoint) ''g_optim'' (g_optim resume_opt)
        (g_learning_rate resume_opt)) \<noteq> Inr (o_step saved_optim)"
  by (simp add: build_optim_def set_parameters_def Optim_def resume_opt_def demo_opt_def
      demo_checkpoint_def saved_optim_def)

text \<open>
  C1, amended.  The restore branch of \<open>build_optim\<close> is guarded by a constant
  \<open>False\<close>: whatever the checkpoint, the optimizer is the one \<open>onmt.Optim\<close>
  creates from the options, bound to the parameters of the model, the same as
  without a checkpoint, with its step counter at the initial value.
\<close>

theorem build_optim_always_fresh:
  "build_optim opt params checkpoint typ optim learning_rate =
     Inr (set_parameters
            (Optim optim learning_rate (max_grad_norm opt) (learning_rate_decay opt)
               (start_decay_at opt) (adam_beta1 opt) (adam_beta2 opt)
               (adagrad_accumulator_init opt) (decay_method opt) (warmup_steps opt)
               (rnn_size opt)) params) \<and>
   build_optim opt params checkpoint typ optim learning_rate =
     build_optim opt params None typ optim learning_rate \<and>
   map_sum id o_step (build_optim opt params checkpoint typ optim learning_rate) = Inr 0"
  by (simp add: build_optim_def set_parameters_def Optim_def)


section \<open>Properties of the token budget\<close>

lemma token_cost_simps:
  "token_cost [] = 0"
  "token_cost (b @ [ex]) = token_cost b + token_cost [ex]"
  by (simp_all add: token_cost_def)

lemma batch_size_fn_cost: "batch_size_fn ex n s = s + token_cost [ex]"
  by (simp add: batch_size_fn_def token_cost_def)

lemma batch_loop_budget:
  assumes "sofar = token_cost mb" and "mb = [] \<or> token_cost mb \<le> B"
  shows "\<forall>b \<in> set (batch_loop batch_size_fn B mb sofar xs).
           token_cost b \<le> B \<or> (\<exists>ex. b = [ex] \<and> B < token_cost [ex])"
  using assms
proof (induction xs arbitrary: mb sofar)
  case Nil
  then show ?case by auto
next
  case (Cons ex rest)
  let ?s = "batch_size_fn ex (int (length mb) + 1) sofar"
  have s: "?s = token_cost (mb @ [ex])"
    using Cons.prems(1) by (simp add: batch_size_fn_cost token_cost_simps)
  have e: "\<forall>b \<in> set (batch_loop batch_size_fn B [] 0 rest).
           token_cost b \<le> B \<or> (\<exists>ex. b = [ex] \<and> B < token_cost [ex])"
    by (rule Cons.IH) (simp_all add: token_cost_simps)
  show ?case
  proof (cases "?s \<le> B")
    case True
    have "\<forall>b \<in> set (batch_loop batch_size_fn B (mb @ [ex]) ?s rest).
           token_cost b \<le> B \<or> (\<exists>ex. b = [ex] \<and> B < token_cost [ex])"
      by (rule Cons.IH) (use s True in simp_all)
    with True show ?thesis by simp
  next
    case over: False
    show ?thesis
    proof (cases "mb = []")
      case True
      with over Cons.prems(1) have "B < token_cost [ex]"
        by (simp add: batch_size_fn_cost token_cost_simps)
      with over True e show ?thesis by auto
    next
      case False
      with Cons.prems(2) have mbB: "token_cost mb \<le> B" by simp
      show ?thesis
      proof (cases "batch_size_fn ex 1 0 \<le> B")
        case True
        have "\<forall>b \<in> set (batch_loop batch_size_fn B [ex] (batch_size_fn ex 1 0) rest).
           token_cost b \<le> B \<or> (\<exists>ex. b = [ex] \<and> B < token_cost [ex])"
          by (rule Cons.IH) (use True in \<open>simp_all add: batch_size_fn_cost\<close>)
        with over False True mbB show ?thesis by simp
      next
        case f: False
        then have "B < token_cost [ex]" by (simp add: batch_size_fn_cost)
        with over False f mbB e show ?thesis by auto
      qed
    qed
  qed
qed

lemma concat_batch_loop: "concat (batch_loop f B mb sofar xs) = mb @ xs"
  by (induction xs arbitrary: mb sofar) auto

lemma sum_list_insort_key:
  fixes g :: "'a \<Rightarrow> int"
  shows "sum_list (map g (insort_key k x ys)) = g x + sum_list (map g ys)"
  by (induction ys) auto

lemma sum_list_sort_key:
  fixes g :: "'a \<Rightarrow> int"
  shows "sum_list (map g (sort_key k xs)) = sum_list (map g xs)"
  by (induction xs) (simp_all add: sum_list_insort_key)

lemma token_cost_sort_within: "token_cost (sort_within_batch b) = token_cost b"
  by (simp add: token_cost_def sort_within_batch_def sum_list_sort_key)

lemma sort_within_singleton: "sort_within_batch [ex] = [ex]"
  by (simp add: sort_within_batch_def)

lemma set_concat_map_sort: "set (concat (map sort_within_batch bs)) = set (concat bs)"
  by (induction bs) (simp_all add: sort_within_batch_def)

lemma OrderedIterator_batches_budget:
  assumes "oi_batch_size_fn it = Some batch_size_fn"
  shows "\<forall>b \<in> set (OrderedIterator_batches it).
           token_cost b \<le> oi_batch_size it \<or> (\<exists>ex. b = [ex] \<and> oi_batch_size it < token_cost [ex])"
proof -
  have l: "\<forall>b \<in> set (batch_loop batch_size_fn (oi_batch_size it) [] 0 (examples (oi_dataset it))).
           token_cost b \<le> oi_batch_size it \<or> (\<exists>ex. b = [ex] \<and> oi_batch_size it < token_cost [ex])"
    by (rule batch_loop_budget) (simp_all add: token_cost_simps)
  show ?thesis
  proof (cases "oi_sort_within_batch it")
    case True
    with l assms show ?thesis
      by (auto simp: OrderedIterator_batches_def token_cost_sort_within sort_within_singleton)
  next
    case False
    with l assms show ?thesis by (simp add: OrderedIterator_batches_def)
  qed
qed

lemma OrderedIterator_batches_all:
  "set (concat (OrderedIterator_batches it)) = set (examples (oi_dataset it))"
proof -
  let ?bs = "batch_loop (case oi_batch_size_fn it of None \<Rightarrow> count_fn | Some f \<Rightarrow> f)
          (oi_batch_size it) [] 0 (examples (oi_dataset it))"
  have c: "concat ?bs = examples (oi_dataset it)"
    by (simp add: concat_batch_loop)
  show ?thesis
  proof (cases "oi_sort_within_batch it")
    case True
    then have "OrderedIterator_batches it = map sort_within_batch ?bs"
      by (simp add: OrderedIterator_batches_def)
    then have "set (concat (OrderedIterator_batches it)) = set (concat ?bs)"
      by (simp only: set_concat_map_sort)
    with c show ?thesis by (simp only:)
  next
    case False
    then have "OrderedIterator_batches it = ?bs"
      by (simp add: OrderedIterator_batches_def)
    with c show ?thesis by (simp only:)
  qed
qed

lemma yield_loaded_emitted: "emitted (fst (yield_loaded fs pt c g)) = []"
  by (simp add: yield_loaded_def split: sum.splits)

lemma for_pts_emitted: "emitted (fst (for_pts fs c pts)) = []"
  by (cases pts) (simp_all add: yield_loaded_emitted)

lemma gen_next_emitted: "emitted (fst (gen_next fs opt g)) = []"
  by (cases g) (simp_all add: Let_def yield_loaded_emitted for_pts_emitted)

lemma next_dataset_iterator_budget:
  fixes nxt :: "('g, 'b) next_fn"
  assumes q: "\<And>g. emitted (fst (nxt g)) = []"
    and n: "next_dataset_iterator nxt self = (evs, res)"
  shows "emitted evs = [] \<and>
     (\<forall>r self'. res = Inr (r, self') \<longrightarrow>
        di_batch_size self' = di_batch_size self \<and>
        di_batch_size_fn self' = di_batch_size_fn self \<and>
        (\<forall>it. r = Some it \<longrightarrow> oi_batch_size it = di_batch_size self \<and>
                oi_batch_size_fn it = di_batch_size_fn self))"
proof -
  obtain e0 out g' where g: "nxt (di_datasets self) = (e0, out, g')"
    by (cases "nxt (di_datasets self)") auto
  with q [of "di_datasets self"] have e: "emitted e0 = []" by simp
  show ?thesis
    using n g e
    by (cases out)
      (auto simp: next_dataset_iterator_def new_OrderedIterator_def Let_def emitted_append)
qed

lemma DatasetIter_iter_budget:
  fixes nxt :: "('g, example list) next_fn"
  assumes "DatasetIter_iter nxt batches self done = Some y"
  shows "batches = OrderedIterator_batches \<longrightarrow> (\<forall>g. emitted (fst (nxt g)) = []) \<longrightarrow>
     di_batch_size self = B \<longrightarrow> di_batch_size_fn self = Some batch_size_fn \<longrightarrow>
     (\<forall>it. cur_iter self = Some it \<longrightarrow>
         oi_batch_size it = B \<and> oi_batch_size_fn it = Some batch_size_fn) \<longrightarrow>
     (\<forall>b \<in> set (emitted done). within_budget B b) \<longrightarrow>
     (\<forall>b \<in> set (emitted (fst y)). within_budget B b)"
proof -
  let ?P = "\<lambda>(nxt :: ('g, example list) next_fn) batches (self :: 'g DatasetIter) dn
       (y :: example list event list \<times> (error + 'g DatasetIter)).
     batches = OrderedIterator_batches \<longrightarrow> (\<forall>g. emitted (fst (nxt g)) = []) \<longrightarrow>
     di_batch_size self = B \<longrightarrow> di_batch_size_fn self = Some batch_size_fn \<longrightarrow>
     (\<forall>it. cur_iter self = Some it \<longrightarrow>
         oi_batch_size it = B \<and> oi_batch_size_fn it = Some batch_size_fn) \<longrightarrow>
     (\<forall>b \<in> set (emitted dn). within_budget B b) \<longrightarrow>
     (\<forall>b \<in> set (emitted (fst y)). within_budget B b)"
  have "?P nxt batches self done y"
  proof (rule DatasetIter_iter.raw_induct [where P = ?P, OF _ assms])
    fix f and nxt :: "('g, example list) next_fn" and batches and self :: "'g DatasetIter"
      and dn and y :: "example list event list \<times> (error + 'g DatasetIter)"
    assume IH: "\<And>nxt batches self dn y. f nxt batches self dn = Some y \<Longrightarrow> ?P nxt batches self dn y"
      and body: "(case cur_iter self of
          None \<Rightarrow> Some (dn, Inr self)
        | Some it \<Rightarrow>
            (case next_dataset_iterator nxt self of
               (evs, Inl e) \<Rightarrow> Some (dn @ map Batch (batches it) @ evs, Inl e)
             | (evs, Inr (r, self')) \<Rightarrow>
                 f nxt batches (self' \<lparr> cur_iter := r \<rparr>) (dn @ map Batch (batches it) @ evs)))
         = Some y"
    show "?P nxt batches self dn y"
    proof (intro impI)
      assume b: "batches = OrderedIterator_batches"
        and q: "\<forall>g. emitted (fst (nxt g)) = []"
        and s: "di_batch_size self = B" and sf: "di_batch_size_fn self = Some batch_size_fn"
        and ci: "\<forall>it. cur_iter self = Some it \<longrightarrow>
           oi_batch_size it = B \<and> oi_batch_size_fn it = Some batch_size_fn"
        and d: "\<forall>b \<in> set (emitted dn). within_budget B b"
      show "\<forall>b \<in> set (emitted (fst y)). within_budget B b"
      proof (cases "cur_iter self")
        case None
        with body d show ?thesis by auto
      next
        case (Some it)
        with ci have it: "oi_batch_size it = B" "oi_batch_size_fn it = Some batch_size_fn"
          by auto
        from OrderedIterator_batches_budget [OF it(2)] it(1)
        have bb: "\<forall>b \<in> set (OrderedIterator_batches it). within_budget B b"
          by (simp add: within_budget_def)
        obtain evs res where n: "next_dataset_iterator nxt self = (evs, res)"
          by (cases "next_dataset_iterator nxt self") auto
        from q have q': "\<And>g. emitted (fst (nxt g)) = []" by simp
        note nb = next_dataset_iterator_budget [OF q' n]
        have d': "\<forall>b \<in> set (emitted (dn @ map Batch (batches it) @ evs)). within_budget B b"
          using d bb nb b by (auto simp: emitted_append emitted_Batch)
        show ?thesis
        proof (cases res)
          case (Inl e)
          with body Some n have "y = (dn @ map Batch (batches it) @ evs, Inl e)" by simp
          with d' show ?thesis by simp
        next
          case (Inr p)
          obtain r self' where p: "p = (r, self')" by (cases p) auto
          with body Some n Inr
          have c: "f nxt batches (self' \<lparr> cur_iter := r \<rparr>) (dn @ map Batch (batches it) @ evs) = Some y"
            by simp
          from nb Inr p s sf
          have "di_batch_size (self' \<lparr> cur_iter := r \<rparr>) = B"
            "di_batch_size_fn (self' \<lparr> cur_iter := r \<rparr>) = Some batch_size_fn"
            "\<forall>it. cur_iter (self' \<lparr> cur_iter := r \<rparr>) = Some it \<longrightarrow>
                oi_batch_size it = B \<and> oi_batch_size_fn it = Some batch_size_fn"
            by auto
          with IH [OF c] b q d' show ?thesis by blast
        qed
      qed
    qed
  qed
  then show ?thesis .
qed

lemma DatasetIter_iter_gen_returns:
  fixes "done" :: "'b event list"
  shows "\<exists>y. DatasetIter_iter (gen_next fs opt) batches self done = Some y"
proof (induction "gen_size fs (di_datasets self)" arbitrary: self "done" rule: less_induct)
  case less
  show ?case
  proof (cases "cur_iter self")
    case None
    then show ?thesis by (subst DatasetIter_iter.simps) simp
  next
    case (Some it)
    obtain e0 out g' where g: "gen_next fs opt (di_datasets self) = (e0 :: 'b event list, out, g')"
      by (cases "gen_next fs opt (di_datasets self) :: 'b event list \<times> _") auto
    show ?thesis
    proof (cases out)
      case (Yield d)
      with g have "gen_size fs g' < gen_size fs (di_datasets self)"
        by (auto dest: gen_next_size)
      then have "\<exists>y. DatasetIter_iter (gen_next fs opt) batches
          (self \<lparr> di_datasets := g', cur_dataset := Some (d \<lparr> ds_fields := di_fields self \<rparr>),
                  cur_iter := r \<rparr>) dn = Some y" for r and dn :: "'b event list"
        by (intro less) simp
      with Some g Yield show ?thesis
        by (subst DatasetIter_iter.simps) (simp add: next_dataset_iterator_def Let_def)
    next
      case StopIteration
      with Some g show ?thesis
        apply (subst DatasetIter_iter.simps)
        apply (simp add: next_dataset_iterator_def)
        apply (subst DatasetIter_iter.simps)
        apply simp
        done
    next
      case (Raise e)
      with Some g show ?thesis
        by (subst DatasetIter_iter.simps) (simp add: next_dataset_iterator_def)
    qed
  qed
qed

text \<open>
  C6.  A training iterator built with \<open>batch_type = 'tokens'\<close> over the datasets of
  \<open>load_dataset\<close> has the budget \<open>opt.batch_size\<close> and the cost function
  \<open>batch_size_fn\<close>, which adds exactly \<open>max(len(tgt), len(src)) + 1\<close> for the
  new example to the running total.  Iterating it to its end returns, and every
  batch it hands out, of the first dataset and of every later one, has a total cost
  within the budget or is a single example whose cost alone exceeds the budget.
\<close>

theorem token_budget_batches:
  fixes evs0 :: "example list event list"
  assumes "make_dataset_iter (gen_next fs opt) datasets flds opt True = (evs0, Inr self)"
    and "batch_type opt = ''tokens''"
  shows "(\<forall>new count sofar. batch_size_fn new count sofar =
        sofar + (max (int (length (tgt new))) (int (length (src new))) + 1)) \<and>
     di_batch_size_fn self = Some batch_size_fn \<and> di_batch_size self = batch_size opt \<and>
     (\<exists>evs r. DatasetIter_iter (gen_next fs opt) OrderedIterator_batches self evs0 = Some (evs, r) \<and>
        (\<forall>b \<in> set (emitted evs).
           token_cost b \<le> batch_size opt \<or> (\<exists>ex. b = [ex] \<and> batch_size opt < token_cost [ex])))"
proof -
  let ?dev = "if gpuid opt \<noteq> [] then hd (gpuid opt) else - 1"
  from assms have i: "DatasetIter_init (gen_next fs opt) datasets flds (batch_size opt)
      (Some batch_size_fn) ?dev True = (evs0, Inr self)"
    by (simp add: make_dataset_iter_def Let_def)
  from DatasetIter_init_settings [OF i]
  obtain d where ss: "same_settings self flds (batch_size opt) (Some batch_size_fn) ?dev True"
    and c: "cur_iter self =
      Some (bound_iterator flds (batch_size opt) (Some batch_size_fn) ?dev True d)" by blast
  from ss have s: "di_batch_size self = batch_size opt" "di_batch_size_fn self = Some batch_size_fn"
    by (simp_all add: same_settings_def)
  from c have ci: "\<forall>it. cur_iter self = Some it \<longrightarrow>
         oi_batch_size it = batch_size opt \<and> oi_batch_size_fn it = Some batch_size_fn"
    by (simp add: bound_iterator_def)
  have "emitted (fst (evs0, Inr self :: error + generator DatasetIter)) = []"
    unfolding i [symmetric]
    using next_dataset_iterator_budget [where nxt = "gen_next fs opt", OF gen_next_emitted]
    by (auto simp: DatasetIter_init_def Let_def split: prod.splits sum.splits option.splits)
  then have d0: "\<forall>b \<in> set (emitted evs0). within_budget (batch_size opt) b" by simp
  obtain evs r where y: "DatasetIter_iter (gen_next fs opt) OrderedIterator_batches self evs0
      = Some (evs, r)"
    using DatasetIter_iter_gen_returns [of fs opt OrderedIterator_batches self evs0] by auto
  from DatasetIter_iter_budget [OF y, of "batch_size opt"] s ci d0
  have "\<forall>b \<in> set (emitted evs). within_budget (batch_size opt) b"
    by (simp add: gen_next_emitted)
  with y s show ?thesis
    by (auto simp: batch_size_fn_def within_budget_def)
qed


lemma shard_paths_token:
  "shard_paths token_files demo_opt ''train'' = [''demo.train.0.pt'', ''demo.train.1.pt'']"
  by (simp add: shard_paths_def glob_shards_def token_files_def demo_opt_def shard_match_def
      is_digit_def endswith_def)

lemma dataset_loader_token:
  "dataset_loader token_files ''demo.train.0.pt'' c = Inr token_dataset"
  "dataset_loader token_files ''demo.train.1.pt'' c = Inr token_dataset2"
  by (simp_all add: dataset_loader_def torch_load_def token_files_def)

lemma gen_next_token:
  "gen_next token_files demo_opt (load_dataset ''train'') =
     ([TorchLoad ''demo.train.0.pt''], Yield token_dataset, InLoop ''train'' [''demo.train.1.pt''])"
  "gen_next token_files demo_opt (InLoop ''train'' [''demo.train.1.pt'']) =
     ([TorchLoad ''demo.train.1.pt''], Yield token_dataset2, InLoop ''train'' [])"
  "gen_next token_files demo_opt (InLoop ''train'' []) = ([], StopIteration, Finished)"
  by (simp_all add: load_dataset_def shard_paths_token yield_loaded_def dataset_loader_token)

lemma token_costs:
  "map token_cost (OrderedIterator_batches (bound_iterator [] 8 (Some batch_size_fn) 0 True token_dataset))
     = [6, 3, 10]"
  "map token_cost (OrderedIterator_batches (bound_iterator [] 8 (Some batch_size_fn) 0 True token_dataset2))
     = [5, 5]"
  "token_cost (examples token_dataset2) = 10"
  by (simp_all add: OrderedIterator_batches_def bound_iterator_def token_dataset_def
      token_dataset2_def batch_size_fn_def token_cost_def sort_within_batch_def)

theorem token_budget_batches_witness:
  "batch_type demo_opt = ''tokens'' \<and> batch_size demo_opt = 8 \<and>
   (\<exists>evs0 self evs r.
      make_dataset_iter (gen_next token_files demo_opt) (load_dataset ''train'') [] demo_opt True
        = (evs0, Inr self) \<and>
      DatasetIter_iter (gen_next token_files demo_opt) OrderedIterator_batches self evs0
        = Some (evs, r) \<and>
      map token_cost (emitted evs) = [6, 3, 10, 5, 5] \<and>
      (\<forall>b \<in> set (emitted evs). token_cost b \<le> 8 \<or> (\<exists>ex. b = [ex] \<and> 8 < token_cost [ex])))"
proof -
  define it0 where "it0 = bound_iterator [] 8 (Some batch_size_fn) 0 True token_dataset"
  define it1 where "it1 = bound_iterator [] 8 (Some batch_size_fn) 0 True token_dataset2"
  define evs0 :: "example list event list"
    where "evs0 = [TorchLoad ''demo.train.0.pt'', NewIterator it0]"
  define S0 where "S0 = \<lparr> di_datasets = InLoop ''train'' [''demo.train.1.pt''], di_fields = [],
      di_batch_size = 8, di_batch_size_fn = Some batch_size_fn, di_device = 0, di_is_train = True,
      cur_dataset = Some (token_dataset \<lparr> ds_fields := [] \<rparr>), cur_iter = Some it0 \<rparr>"
  define S1 where "S1 = S0 \<lparr> di_datasets := InLoop ''train'' [],
      cur_dataset := Some (token_dataset2 \<lparr> ds_fields := [] \<rparr>), cur_iter := Some it1 \<rparr>"
  define S2 where "S2 = S1 \<lparr> di_datasets := Finished, cur_iter := None \<rparr>"
  have t: "batch_type demo_opt = ''tokens''" and z: "batch_size demo_opt = 8"
    by (simp_all add: demo_opt_def)
  have g: "gpuid demo_opt = [0]" by (simp add: demo_opt_def)
  have h: "make_dataset_iter (gen_next token_files demo_opt) (load_dataset ''train'')
         [] demo_opt True = (evs0, Inr S0)"
    by (simp add: make_dataset_iter_def DatasetIter_init_def next_dataset_iterator_def Let_def
        gen_next_token t z g new_OrderedIterator_def bound_iterator_def evs0_def S0_def it0_def)
  have n1: "next_dataset_iterator (gen_next token_files demo_opt) S0 =
      ([TorchLoad ''demo.train.1.pt'', NewIterator it1] :: example list event list,
       Inr (Some it1, S1 \<lparr> cur_iter := Some it0 \<rparr>))"
    by (simp add: next_dataset_iterator_def Let_def yield_loaded_def dataset_loader_token
        new_OrderedIterator_def bound_iterator_def S0_def S1_def it1_def)
  have n2: "next_dataset_iterator (gen_next token_files demo_opt) S1 =
      ([] :: example list event list, Inr (None, S1 \<lparr> di_datasets := Finished \<rparr>))"
    by (simp add: next_dataset_iterator_def gen_next_token S0_def S1_def)
  have c: "cur_iter S0 = Some it0" "cur_iter S1 = Some it1" "cur_iter S2 = None"
    "S1 \<lparr> cur_iter := Some it0, cur_iter := Some it1 \<rparr> = S1"
    "S1 \<lparr> di_datasets := Finished, cur_iter := None \<rparr> = S2"
    by (simp_all add: S0_def S1_def S2_def)
  have d3: "DatasetIter_iter (gen_next token_files demo_opt) OrderedIterator_batches S2 dn
      = Some (dn, Inr S2)" for dn :: "example list event list"
    by (subst DatasetIter_iter.simps) (simp add: c)
  have d2: "DatasetIter_iter (gen_next token_files demo_opt) OrderedIterator_batches S1 dn
      = Some (dn @ map Batch (OrderedIterator_batches it1), Inr S2)"
    for dn :: "example list event list"
    by (subst DatasetIter_iter.simps) (simp add: c n2 d3)
  have d1: "DatasetIter_iter (gen_next token_files demo_opt) OrderedIterator_batches S0 evs0
      = Some (evs0 @ map Batch (OrderedIterator_batches it0) @
              [TorchLoad ''demo.train.1.pt'', NewIterator it1] @
              map Batch (OrderedIterator_batches it1), Inr S2)"
    by (subst DatasetIter_iter.simps) (simp add: c n1 d2)
  from token_budget_batches [OF h t]
  obtain evs r where y: "DatasetIter_iter (gen_next token_files demo_opt) OrderedIterator_batches
        S0 evs0 = Some (evs, r)"
    and b: "\<forall>b \<in> set (emitted evs). token_cost b \<le> 8 \<or> (\<exists>ex. b = [ex] \<and> 8 < token_cost [ex])"
    unfolding z by blast
  from y d1 have e: "evs = evs0 @ map Batch (OrderedIterator_batches it0) @
              [TorchLoad ''demo.train.1.pt'', NewIterator it1] @
              map Batch (OrderedIterator_batches it1)" by simp
  have m: "map token_cost (emitted evs) = [6, 3, 10, 5, 5]"
    unfolding e by (simp add: emitted_append emitted_Batch token_costs evs0_def it0_def it1_def)
  from h y m b t z show ?thesis
    apply -
    apply (intro conjI exI)
         apply assumption+
    done
qed


section \<open>Properties of train\_model, main and the module level\<close>

lemma phases_append: "phases (xs @ ys) = phases xs @ phases ys"
  by (induction xs rule: phases.induct) simp_all

lemma yield_loaded_phases: "phases (fst (yield_loaded fs pt c g)) = []"
  by (simp add: yield_loaded_def split: sum.splits)

lemma for_pts_phases: "phases (fst (for_pts fs c pts)) = []"
  by (cases pts) (simp_all add: yield_loaded_phases)

lemma gen_next_phases: "phases (fst (gen_next fs opt g)) = []"
  by (cases g) (simp_all add: Let_def yield_loaded_phases for_pts_phases)

lemma next_dataset_iterator_phases:
  assumes "\<And>g. phases (fst (nxt g)) = []"
  shows "phases (fst (next_dataset_iterator nxt self)) = []"
proof -
  obtain e0 out g' where n: "nxt (di_datasets self) = (e0, out, g')"
    by (cases "nxt (di_datasets self)") auto
  with assms [of "di_datasets self"] have "phases e0 = []" by simp
  with n show ?thesis
    by (cases out) (simp_all add: next_dataset_iterator_def Let_def phases_append)
qed

lemma DatasetIter_init_phases:
  assumes "\<And>g. phases (fst (nxt g)) = []"
  shows "phases (fst (DatasetIter_init nxt g flds b f d tr)) = []"
proof -
  let ?self = "\<lparr> di_datasets = g, di_fields = flds, di_batch_size = b, di_batch_size_fn = f,
           di_device = d, di_is_train = tr, cur_dataset = None, cur_iter = None \<rparr>"
  have "phases (fst (next_dataset_iterator nxt ?self)) = []"
    by (rule next_dataset_iterator_phases) (rule assms)
  then show ?thesis
    by (auto simp: DatasetIter_init_def Let_def split: prod.splits sum.splits option.splits)
qed

lemma make_dataset_iter_gen_phases:
  assumes "make_dataset_iter (gen_next fs opt) g flds opt' tr = (evs, r)"
  shows "phases evs = []"
proof -
  have "phases (fst (evs, r)) = []"
    unfolding assms [symmetric] make_dataset_iter_def Let_def
    by (rule DatasetIter_init_phases) (rule gen_next_phases)
  then show ?thesis by simp
qed

lemma train_epoch_cases:
  fixes evs :: "'b event list"
  assumes "train_epoch ext fs opt model_opt flds trainer epoch = (evs, r)"
  shows "(\<exists>e. r = Inl e \<and> (phases evs = [] \<or> phases evs = [TrainerTrain epoch])) \<or>
     (\<exists>(e1 :: 'b event list) train_iter (e2 :: 'b event list) valid_iter train_stats trainer1.
        make_dataset_iter (gen_next fs opt) (load_dataset ''train'') flds opt True = (e1, Inr train_iter) \<and>
        trainer_train ext trainer train_iter epoch = (train_stats, trainer1) \<and>
        make_dataset_iter (gen_next fs opt) (load_dataset ''valid'') flds opt False = (e2, Inr valid_iter) \<and>
        phases evs = epoch_phases opt epoch (ppl ext (trainer_validate ext trainer1 valid_iter)) \<and>
        r = Inr (trainer_epoch_step ext trainer1 (ppl ext (trainer_validate ext trainer1 valid_iter)) epoch))"
proof -
  obtain e1 r1 where m1: "make_dataset_iter (gen_next fs opt) (load_dataset ''train'') flds opt True = (e1 :: 'b event list, r1)"
    by (cases "make_dataset_iter (gen_next fs opt) (load_dataset ''train'') flds opt True :: 'b event list \<times> _") auto
  have p1: "phases e1 = []" by (rule make_dataset_iter_gen_phases [OF m1])
  show ?thesis
  proof (cases r1)
    case (Inl e)
    with assms m1 p1 show ?thesis by (auto simp: train_epoch_def)
  next
    case (Inr train_iter)
    obtain train_stats trainer1 where tt: "trainer_train ext trainer train_iter epoch = (train_stats, trainer1)"
      by (cases "trainer_train ext trainer train_iter epoch") auto
    show ?thesis
    proof (cases "n_batch ext train_stats = 0")
      case True
      with assms m1 p1 Inr tt show ?thesis by (auto simp: train_epoch_def phases_append)
    next
      case nz: False
      obtain e2 r2 where m2: "make_dataset_iter (gen_next fs opt) (load_dataset ''valid'') flds opt False = (e2 :: 'b event list, r2)"
        by (cases "make_dataset_iter (gen_next fs opt) (load_dataset ''valid'') flds opt False :: 'b event list \<times> _") auto
      have p2: "phases e2 = []" by (rule make_dataset_iter_gen_phases [OF m2])
      show ?thesis
      proof (cases r2)
        case (Inl e)
        with assms m1 p1 Inr tt nz m2 p2 show ?thesis
          by (auto simp: train_epoch_def phases_append)
      next
        case v: (Inr valid_iter)
        from assms m1 Inr tt nz m2 v
        have "phases evs = epoch_phases opt epoch (ppl ext (trainer_validate ext trainer1 valid_iter))"
          and "r = Inr (trainer_epoch_step ext trainer1 (ppl ext (trainer_validate ext trainer1 valid_iter)) epoch)"
          using p1 p2 by (auto simp: train_epoch_def phases_append epoch_phases_def Let_def)
        with m1 Inr tt m2 v show ?thesis by auto
      qed
    qed
  qed
qed

lemma forget_epoch_phases: "map forget_ppl (epoch_phases opt e p) = epoch_phases opt e 0"
  by (simp add: epoch_phases_def)

lemma trained_epochs_phases: "trained_epochs (phases evs) = trained_epochs evs"
  by (induction evs rule: phases.induct) simp_all

lemma trained_epochs_append: "trained_epochs (xs @ ys) = trained_epochs xs @ trained_epochs ys"
  by (induction xs rule: trained_epochs.induct) simp_all


lemma epoch_loop_phases:
  fixes evs :: "'b event list"
  assumes "epoch_loop ext fs opt mo flds tr es = (evs, Inr tr')"
  shows "map forget_ppl (phases evs) = concat (map (\<lambda>e. epoch_phases opt e 0) es)"
  using assms
proof (induction es arbitrary: tr evs)
  case Nil
  then show ?case by simp
next
  case (Cons e es)
  obtain ev1 r1 where t: "train_epoch ext fs opt mo flds tr e = (ev1 :: 'b event list, r1)"
    by (cases "train_epoch ext fs opt mo flds tr e :: 'b event list \<times> _") auto
  obtain ev2 r2 tr1 where r1: "r1 = Inr tr1"
    and l: "epoch_loop ext fs opt mo flds tr1 es = (ev2 :: 'b event list, r2)"
    and ev: "evs = ev1 @ ev2" and r2: "r2 = Inr tr'"
    using Cons.prems t by (cases r1) (auto split: prod.splits)
  from train_epoch_cases [OF t] r1 obtain p where p: "phases ev1 = epoch_phases opt e p"
    by auto
  from Cons.IH [of tr1 ev2] l r2
  have "map forget_ppl (phases ev2) = concat (map (\<lambda>e. epoch_phases opt e 0) es)" by simp
  with p ev show ?case by (simp add: phases_append forget_epoch_phases)
qed

lemma trained_epoch_phases: "trained_epochs (epoch_phases opt e p) = [e]"
  by (simp add: epoch_phases_def)

lemma train_epoch_trained:
  fixes evs :: "'b event list"
  assumes "train_epoch ext fs opt mo flds tr e = (evs, r)"
  shows "(trained_epochs evs = [] \<or> trained_epochs evs = [e]) \<and>
         ((\<exists>t. r = Inr t) \<longrightarrow> trained_epochs evs = [e])"
proof -
  from train_epoch_cases [OF assms]
  have "(\<exists>x. r = Inl x \<and> (phases evs = [] \<or> phases evs = [TrainerTrain e])) \<or>
        (\<exists>p. phases evs = epoch_phases opt e p)" by blast
  then have "(\<exists>x. r = Inl x \<and> (trained_epochs (phases evs) = [] \<or> trained_epochs (phases evs) = [e])) \<or>
        trained_epochs (phases evs) = [e]"
    by (auto simp: trained_epoch_phases)
  then show ?thesis by (auto simp: trained_epochs_phases)
qed

lemma epoch_loop_trained:
  fixes evs :: "'b event list"
  assumes "epoch_loop ext fs opt mo flds tr es = (evs, r)"
  shows "(\<exists>n. trained_epochs evs = take n es) \<and> ((\<exists>t. r = Inr t) \<longrightarrow> trained_epochs evs = es)"
  using assms
proof (induction es arbitrary: tr evs r)
  case Nil
  then show ?case by simp
next
  case (Cons e es)
  obtain ev1 r1 where t: "train_epoch ext fs opt mo flds tr e = (ev1 :: 'b event list, r1)"
    by (cases "train_epoch ext fs opt mo flds tr e :: 'b event list \<times> _") auto
  note te = train_epoch_trained [OF t]
  show ?case
  proof (cases r1)
    case (Inl x)
    with Cons.prems t have evs: "evs = ev1" and r: "r = Inl x" by auto
    from te have "trained_epochs ev1 = take 0 (e # es) \<or> trained_epochs ev1 = take 1 (e # es)"
      by auto
    with evs r show ?thesis by blast
  next
    case (Inr tr1)
    obtain ev2 r2 where l: "epoch_loop ext fs opt mo flds tr1 es = (ev2 :: 'b event list, r2)"
      by (cases "epoch_loop ext fs opt mo flds tr1 es :: 'b event list \<times> _") auto
    with Cons.prems t Inr have evs: "evs = ev1 @ ev2" and r: "r = r2" by auto
    from te Inr have t1: "trained_epochs ev1 = [e]" by simp
    from Cons.IH [OF l] obtain n where n: "trained_epochs ev2 = take n es"
      and f: "(\<exists>t. r2 = Inr t) \<longrightarrow> trained_epochs ev2 = es" by blast
    have "trained_epochs evs = take (Suc n) (e # es)"
      using evs t1 n by (simp add: trained_epochs_append)
    moreover have "(\<exists>t. r = Inr t) \<longrightarrow> trained_epochs evs = e # es"
      using evs t1 f r by (simp add: trained_epochs_append)
    ultimately show ?thesis by blast
  qed
qed

lemma train_model_trained:
  fixes evs :: "'b event list"
  assumes "train_model ext fs opt model disc nli flds g_o d_o n_o dtype mo = (evs, r)"
  shows "(\<exists>n. trained_epochs evs = take n [start_epoch opt .. epochs opt]) \<and>
         ((\<exists>t. r = Inr t) \<longrightarrow> trained_epochs evs = [start_epoch opt .. epochs opt])"
proof (cases "map_of flds ''tgt''")
  case None
  with assms have "evs = []" "r = Inl (KeyError ''tgt'')" by (simp_all add: train_model_def)
  then have "trained_epochs evs = take 0 [start_epoch opt .. epochs opt]" by simp
  with \<open>r = Inl (KeyError ''tgt'')\<close> show ?thesis by blast
next
  case (Some t)
  with assms obtain tr where
    "epoch_loop ext fs opt mo flds tr [start_epoch opt .. epochs opt] = (evs, r)"
    by (simp add: train_model_def Let_def)
  from epoch_loop_trained [OF this] show ?thesis .
qed

lemma train_model_phases:
  fixes evs :: "'b event list"
  assumes "train_model ext fs opt model disc nli flds g_o d_o n_o dtype mo = (evs, Inr tr')"
  shows "map forget_ppl (phases evs) =
     concat (map (\<lambda>e. epoch_phases opt e 0) [start_epoch opt .. epochs opt])"
proof (cases "map_of flds ''tgt''")
  case None
  with assms show ?thesis by (simp add: train_model_def)
next
  case (Some t)
  with assms obtain tr where
    "epoch_loop ext fs opt mo flds tr [start_epoch opt .. epochs opt] = (evs, Inr tr')"
    by (simp add: train_model_def Let_def)
  from epoch_loop_phases [OF this] show ?thesis .
qed

text \<open>
  C9.  An epoch of \<open>train_model\<close> that completes has called, in this order,
  \<open>trainer.train\<close> on the training iterator, \<open>trainer.validate\<close> on the
  validation iterator, \<open>trainer.epoch_step\<close> with the perplexity of the statistics
  that validation returned, and then \<open>trainer.drop_checkpoint\<close> exactly when the
  epoch is at least \<open>start_checkpoint_at\<close>.  A run of \<open>train_model\<close> that
  completes is this sequence for each epoch from \<open>start_epoch\<close> to \<open>epochs\<close>.
\<close>

theorem train_model_phase_order:
  fixes evs evs' :: "'b event list"
  shows "(train_epoch ext fs opt model_opt flds trainer epoch = (evs, Inr trainer') \<longrightarrow>
      (\<exists>(e1 :: 'b event list) train_iter (e2 :: 'b event list) valid_iter train_stats trainer1.
         make_dataset_iter (gen_next fs opt) (load_dataset ''train'') flds opt True
           = (e1, Inr train_iter) \<and>
         trainer_train ext trainer train_iter epoch = (train_stats, trainer1) \<and>
         make_dataset_iter (gen_next fs opt) (load_dataset ''valid'') flds opt False
           = (e2, Inr valid_iter) \<and>
         phases evs =
           [TrainerTrain epoch, TrainerValidate,
            EpochStep (ppl ext (trainer_validate ext trainer1 valid_iter)) epoch] @
           (if start_checkpoint_at opt \<le> epoch then [DropCheckpoint epoch] else []))) \<and>
    (train_model ext fs opt model disc nli flds g_o d_o n_o dtype model_opt = (evs', Inr trainer'') \<longrightarrow>
       map forget_ppl (phases evs') =
         concat (map (\<lambda>e. [TrainerTrain e, TrainerValidate, EpochStep 0 e] @
                          (if start_checkpoint_at opt \<le> e then [DropCheckpoint e] else []))
                   [start_epoch opt .. epochs opt]))"
proof (intro conjI impI)
  assume a: "train_epoch ext fs opt model_opt flds trainer epoch = (evs, Inr trainer')"
  from train_epoch_cases [OF a]
  show "\<exists>(e1 :: 'b event list) train_iter (e2 :: 'b event list) valid_iter train_stats trainer1.
         make_dataset_iter (gen_next fs opt) (load_dataset ''train'') flds opt True
           = (e1, Inr train_iter) \<and>
         trainer_train ext trainer train_iter epoch = (train_stats, trainer1) \<and>
         make_dataset_iter (gen_next fs opt) (load_dataset ''valid'') flds opt False
           = (e2, Inr valid_iter) \<and>
         phases evs =
           [TrainerTrain epoch, TrainerValidate,
            EpochStep (ppl ext (trainer_validate ext trainer1 valid_iter)) epoch] @
           (if start_checkpoint_at opt \<le> epoch then [DropCheckpoint epoch] else [])"
    unfolding epoch_phases_def by auto
next
  assume "train_model ext fs opt model disc nli flds g_o d_o n_o dtype model_opt = (evs', Inr trainer'')"
  from train_model_phases [OF this]
  show "map forget_ppl (phases evs') =
         concat (map (\<lambda>e. [TrainerTrain e, TrainerValidate, EpochStep 0 e] @
                          (if start_checkpoint_at opt \<le> e then [DropCheckpoint e] else []))
                   [start_epoch opt .. epochs opt])"
    unfolding epoch_phases_def .
qed


lemma data_demo_opt: "data demo_opt = ''demo''" "data resume_opt = ''demo''"
  by (simp_all add: demo_opt_def resume_opt_def)

lemma shard_paths_demo:
  "shard_paths demo_files opt c = []" if "data opt = ''demo''" "c = ''train'' \<or> c = ''valid''"
  using that
  by (auto simp: shard_paths_def glob_shards_def demo_files_def shard_match_def is_digit_def)

lemma shard_paths_resume:
  "shard_paths resume_files opt c = []" if "data opt = ''demo''" "c = ''train'' \<or> c = ''valid''"
  using that
  by (auto simp: shard_paths_def glob_shards_def resume_files_def demo_files_def shard_match_def is_digit_def)

lemma gen_next_demo:
  assumes "data opt = ''demo''"
  shows "gen_next demo_files opt (load_dataset ''train'') =
      ([TorchLoad ''demo.train.pt''], Yield (demo_dataset ''a''), AtSingle)"
    and "gen_next demo_files opt (load_dataset ''valid'') =
      ([TorchLoad ''demo.valid.pt''], Yield (demo_dataset ''b''), AtSingle)"
    and "gen_next resume_files opt (load_dataset ''train'') =
      ([TorchLoad ''demo.train.pt''], Yield (demo_dataset ''a''), AtSingle)"
    and "gen_next resume_files opt (load_dataset ''valid'') =
      ([TorchLoad ''demo.valid.pt''], Yield (demo_dataset ''b''), AtSingle)"
  using assms
  by (simp_all add: load_dataset_def shard_paths_demo shard_paths_resume yield_loaded_def
      dataset_loader_def torch_load_def)
    (simp_all add: demo_files_def resume_files_def)

lemma demo_opt_fields:
  "start_checkpoint_at demo_opt = 2" "exp_host demo_opt = []" "gpuid demo_opt = [0]"
  "start_epoch demo_opt = 1" "epochs demo_opt = 2" "copy_attn demo_opt = False"
  "train_from demo_opt = []"
  by (simp_all add: demo_opt_def)

lemma resume_opt_fields:
  "start_checkpoint_at resume_opt = 2" "exp_host resume_opt = []" "gpuid resume_opt = [0]"
  "epochs resume_opt = 4" "copy_attn resume_opt = False"
  "train_from resume_opt = ''demo_e3.pt''" "d_train_from resume_opt = []"
  by (simp_all add: demo_opt_def resume_opt_def)

lemma train_epoch_demo:
  assumes "data opt = ''demo''" "exp_host opt = []" "fs = demo_files \<or> fs = resume_files"
  shows "\<exists>evs :: unit event list.
     train_epoch demo_ext fs opt mo flds tr e = (evs, Inr tr) \<and>
     phases evs = [TrainerTrain e, TrainerValidate, EpochStep 7 e] @
        (if start_checkpoint_at opt \<le> e then [DropCheckpoint e] else [])"
  using assms
  by (auto simp: train_epoch_def make_dataset_iter_def DatasetIter_init_def
      next_dataset_iterator_def gen_next_demo Let_def demo_ext_def)

theorem train_model_phase_order_witness:
  "(\<exists>(evs :: unit event list) tr'.
      train_epoch demo_ext demo_files demo_opt demo_opt demo_fields demo_trainer 2 = (evs, Inr tr') \<and>
      phases evs = [TrainerTrain 2, TrainerValidate, EpochStep 7 2, DropCheckpoint 2]) \<and>
   (\<exists>(evs' :: unit event list) tr''.
      train_model demo_ext demo_files demo_opt ''generator'' ''discriminator'' ''nli'' demo_fields
        demo_optim demo_optim demo_optim ''text'' demo_opt = (evs', Inr tr'') \<and>
      map forget_ppl (phases evs') =
        [TrainerTrain 1, TrainerValidate, EpochStep 0 1,
         TrainerTrain 2, TrainerValidate, EpochStep 0 2, DropCheckpoint 2])"
proof -
  obtain evs :: "unit event list" where
    h1: "train_epoch demo_ext demo_files demo_opt demo_opt demo_fields demo_trainer 2
           = (evs, Inr demo_trainer)"
    using train_epoch_demo [of demo_opt demo_files demo_opt demo_fields demo_trainer 2]
    by (auto simp: data_demo_opt demo_opt_fields)
  from train_model_phase_order [THEN conjunct1, THEN mp, OF h1]
  have p1: "phases evs = [TrainerTrain 2, TrainerValidate, EpochStep 7 2, DropCheckpoint 2]"
    by (auto simp: demo_ext_def demo_opt_fields)
  obtain evs' :: "unit event list" and tr'' where
    h2: "train_model demo_ext demo_files demo_opt ''generator'' ''discriminator'' ''nli'' demo_fields
        demo_optim demo_optim demo_optim ''text'' demo_opt = (evs', Inr tr'')"
  proof -
    have u: "[start_epoch demo_opt .. epochs demo_opt] = [1, 2]"
      by (simp add: demo_opt_fields upto_rec1)
    obtain tr where "train_model demo_ext demo_files demo_opt ''generator'' ''discriminator'' ''nli''
        demo_fields demo_optim demo_optim demo_optim ''text'' demo_opt
        = (epoch_loop demo_ext demo_files demo_opt demo_opt demo_fields tr [1, 2]
            :: unit event list \<times> _)"
      by (simp add: train_model_def demo_fields_def Let_def u)
    moreover obtain e1 :: "unit event list" where
      "train_epoch demo_ext demo_files demo_opt demo_opt demo_fields tr 1 = (e1, Inr tr)"
      using train_epoch_demo [of demo_opt demo_files demo_opt demo_fields tr 1]
      by (auto simp: data_demo_opt demo_opt_fields)
    moreover obtain e2 :: "unit event list" where
      "train_epoch demo_ext demo_files demo_opt demo_opt demo_fields tr 2 = (e2, Inr tr)"
      using train_epoch_demo [of demo_opt demo_files demo_opt demo_fields tr 2]
      by (auto simp: data_demo_opt demo_opt_fields)
    ultimately have "train_model demo_ext demo_files demo_opt ''generator'' ''discriminator'' ''nli''
        demo_fields demo_optim demo_optim demo_optim ''text'' demo_opt = (e1 @ e2 @ [], Inr tr)"
      by simp
    then show ?thesis using that by blast
  qed
  from train_model_phase_order [THEN conjunct2, THEN mp, OF h2]
  have p2: "map forget_ppl (phases evs') =
        [TrainerTrain 1, TrainerValidate, EpochStep 0 1,
         TrainerTrain 2, TrainerValidate, EpochStep 0 2, DropCheckpoint 2]"
    by (simp add: demo_opt_fields upto_rec1)
  from h1 p1 h2 p2 show ?thesis
    apply -
    apply (intro conjI exI)
       apply assumption+
    done
qed

lemma build_optim_fresh:
  "build_optim opt params checkpoint typ optim learning_rate =
     Inr (set_parameters
            (Optim optim learning_rate (max_grad_norm opt) (learning_rate_decay opt)
               (start_decay_at opt) (adam_beta1 opt) (adam_beta2 opt)
               (adagrad_accumulator_init opt) (decay_method opt) (warmup_steps opt)
               (rnn_size opt)) params)"
  by (simp add: build_optim_def)

lemma main_resume_phases: "phases (fst (main_resume fs opt)) = []"
  by (simp add: main_resume_def Let_def split: sum.splits)

lemma load_fields_phases: "phases (fst (load_fields f fs opt ds dt ck)) = []"
  by (simp add: load_fields_def Let_def split: sum.splits option.splits)

lemma quiet_trained: "phases evs = [] \<Longrightarrow> trained_epochs evs = []"
  using trained_epochs_phases [of evs] by simp

lemma main_trained:
  fixes evs :: "'b event list"
  assumes "main ext fs opt = (evs, r)"
  shows "((\<exists>e. r = Inl e) \<and> trained_epochs evs = []) \<or>
     (\<exists>(e2 :: 'b event list) c d mo opt'.
        main_resume fs opt = (e2, Inr (c, d, mo, opt')) \<and>
        (\<exists>n. trained_epochs evs = take n [start_epoch opt' .. epochs opt']) \<and>
        ((\<exists>t. r = Inr t) \<longrightarrow> trained_epochs evs = [start_epoch opt' .. epochs opt']))"
proof -
  obtain ev1 out g where g: "gen_next fs opt (load_dataset ''train'') = (ev1 :: 'b event list, out, g)"
    by (cases "gen_next fs opt (load_dataset ''train'') :: 'b event list \<times> _") auto
  have "phases (fst (ev1, out, g)) = []"
    unfolding g [symmetric] by (rule gen_next_phases)
  then have q1: "trained_epochs ev1 = []" by (simp add: quiet_trained)
  obtain e2 r2 where m: "main_resume fs opt = (e2 :: 'b event list, r2)"
    by (cases "main_resume fs opt :: 'b event list \<times> _") auto
  have "phases (fst (e2, r2)) = []"
    unfolding m [symmetric] by (rule main_resume_phases)
  then have q2: "trained_epochs e2 = []" by (simp add: quiet_trained)
  show ?thesis
  proof (cases out)
    case StopIteration
    with assms g q1 show ?thesis by (auto simp: main_def)
  next
    case (Raise e)
    with assms g q1 show ?thesis by (auto simp: main_def)
  next
    case (Yield first_dataset)
    show ?thesis
    proof (cases r2)
      case (Inl e)
      with assms g Yield m q1 q2 show ?thesis
        by (auto simp: main_def trained_epochs_append)
    next
      case (Inr quad)
      obtain c d mo opt' where quad: "quad = (c, d, mo, opt')" by (cases quad) auto
      obtain e3 r3 where l: "load_fields (load_fields_from_vocab ext) fs opt' first_dataset
          (data_type first_dataset) c = (e3 :: 'b event list, r3)"
        by (cases "load_fields (load_fields_from_vocab ext) fs opt' first_dataset
          (data_type first_dataset) c :: 'b event list \<times> _") auto
      have "phases (fst (e3, r3)) = []"
        unfolding l [symmetric] by (rule load_fields_phases)
      then have q3: "trained_epochs e3 = []" by (simp add: quiet_trained)
      show ?thesis
      proof (cases r3)
        case (Inl e)
        with assms g Yield m Inr quad l q1 q2 q3 show ?thesis
          by (auto simp: main_def trained_epochs_append)
      next
        case flds: (Inr flds)
        show ?thesis
        proof (cases "collect_report_features (collect_features ext) flds")
          case (Inl e)
          with assms g Yield m Inr quad l flds q1 q2 q3 show ?thesis
            by (auto simp: main_def trained_epochs_append)
        next
          case u: (Inr u)
          obtain model disc nli where b: "build_model ext mo opt' flds c d = (model, disc, nli)"
            by (cases "build_model ext mo opt' flds c d") auto
          from assms g Yield m Inr quad l flds u b
          obtain e4 g_o d_o n_o where t: "train_model ext fs opt' model disc nli flds g_o d_o n_o
              (data_type first_dataset) mo = (e4 :: 'b event list, r)"
            and evs: "evs = ev1 @ e2 @ e3 @ e4"
            by (auto simp: main_def build_optim_fresh split: prod.splits)
          from evs q1 q2 q3 have "trained_epochs evs = trained_epochs e4"
            by (simp add: trained_epochs_append)
          with train_model_trained [OF t] m Inr quad show ?thesis by auto
        qed
      qed
    qed
  qed
qed

text \<open>
  C5.  On a run with \<open>train_from\<close> set whose checkpoint file holds a checkpoint
  saved after epoch \<open>E\<close>, the block of \<open>main\<close> that loads the checkpoint sets
  \<open>opt.start_epoch\<close> to \<open>E + 1\<close>; the epochs the run trains are an initial
  part of \<open>E + 1, ..., epochs\<close>, all of them when the run completes, so the first
  epoch trained is \<open>E + 1\<close>.
\<close>

theorem resume_starts_at_next_epoch:
  fixes evs :: "'b event list"
  assumes "train_from opt \<noteq> []"
    and "load_checkpoint fs (train_from opt) = Inr ck"
    and "main ext fs opt = (evs, r)"
  shows "(\<forall>(e :: 'b event list) c d mo opt'.
            main_resume fs opt = (e, Inr (c, d, mo, opt')) \<longrightarrow>
              c = Some ck \<and> mo = ck_opt ck \<and> start_epoch opt' = ck_epoch ck + 1) \<and>
         (\<exists>n. trained_epochs evs = take n [ck_epoch ck + 1 .. epochs opt]) \<and>
         ((\<exists>t. r = Inr t) \<longrightarrow> trained_epochs evs = [ck_epoch ck + 1 .. epochs opt])"
proof -
  have a: "c = Some ck \<and> mo = ck_opt ck \<and> start_epoch opt' = ck_epoch ck + 1 \<and>
           epochs opt' = epochs opt"
    if "main_resume fs opt = (e :: 'b event list, Inr (c, d, mo, opt'))" for e c d mo opt'
    using that assms(1,2)
    by (auto simp: main_resume_def Let_def split: if_splits sum.splits)
  from main_trained [OF assms(3)]
  have "(\<exists>n. trained_epochs evs = take n [ck_epoch ck + 1 .. epochs opt]) \<and>
         ((\<exists>t. r = Inr t) \<longrightarrow> trained_epochs evs = [ck_epoch ck + 1 .. epochs opt])"
  proof
    assume "(\<exists>e. r = Inl e) \<and> trained_epochs evs = []"
    then have "trained_epochs evs = take 0 [ck_epoch ck + 1 .. epochs opt]" and "\<exists>e. r = Inl e"
      by simp_all
    then show ?thesis by blast
  next
    assume "\<exists>(e2 :: 'b event list) c d mo opt'.
        main_resume fs opt = (e2, Inr (c, d, mo, opt')) \<and>
        (\<exists>n. trained_epochs evs = take n [start_epoch opt' .. epochs opt']) \<and>
        ((\<exists>t. r = Inr t) \<longrightarrow> trained_epochs evs = [start_epoch opt' .. epochs opt'])"
    then obtain e2 :: "'b event list" and c d mo opt' where
      m: "main_resume fs opt = (e2, Inr (c, d, mo, opt'))"
      and t: "(\<exists>n. trained_epochs evs = take n [start_epoch opt' .. epochs opt']) \<and>
        ((\<exists>t. r = Inr t) \<longrightarrow> trained_epochs evs = [start_epoch opt' .. epochs opt'])"
      by blast
    from a [OF m] t show ?thesis by simp
  qed
  with a show ?thesis by blast
qed

theorem resume_starts_at_next_epoch_witness:
  "ck_epoch demo_checkpoint = 3 \<and>
   (\<exists>(evs :: unit event list) t.
      main demo_ext resume_files resume_opt = (evs, Inr t) \<and> trained_epochs evs = [4])"
proof -
  have a1: "train_from resume_opt \<noteq> []" by (simp add: resume_opt_fields)
  have a2: "load_checkpoint resume_files (train_from resume_opt) = Inr demo_checkpoint"
    by (simp add: load_checkpoint_def torch_load_def resume_files_def resume_opt_fields)
  have e: "ck_epoch demo_checkpoint = 3" by (simp add: demo_checkpoint_def)
  let ?opt' = "resume_opt \<lparr> start_epoch := 4 \<rparr>"
  have r: "main_resume resume_files resume_opt =
     ([TorchLoad ''demo_e3.pt''] :: unit event list,
      Inr (Some demo_checkpoint, None, demo_opt, ?opt'))"
    by (simp add: main_resume_def a2 [simplified resume_opt_fields] resume_opt_fields Let_def e)
      (simp add: demo_checkpoint_def resume_opt_def)
  have d: "data ?opt' = ''demo''" "exp_host ?opt' = []" "epochs ?opt' = 4" "start_epoch ?opt' = 4"
    "copy_attn ?opt' = False"
    by (simp_all add: resume_opt_def demo_opt_def)
  have f: "load_fields (load_fields_from_vocab demo_ext) resume_files ?opt' (demo_dataset ''a'')
      (data_type (demo_dataset ''a'')) (Some demo_checkpoint) =
     ([TorchLoad ''demo.vocab.pt''] :: unit event list, Inr demo_fields)"
    by (simp add: load_fields_def d torch_load_def resume_files_def demo_files_def demo_ext_def
        vocab_fields_def demo_dataset_def ex_dict_def set_vocab_def demo_fields_def)
  have c: "collect_report_features (collect_features demo_ext) demo_fields = Inr ()"
    by (simp add: collect_report_features_def demo_ext_def)
  have b: "build_model demo_ext demo_opt ?opt' demo_fields (Some demo_checkpoint) None =
      (''generator'', ''discriminator'', ''nli'')"
    by (simp add: build_model_def demo_ext_def resume_opt_def demo_opt_def)
  let ?g = "set_parameters (Optim ''sgd'' 1 5 (1 / 2) 8 (9 / 10) (999 / 1000) 0 [] 4000 500)"
  have o: "build_optim ?opt' ps (Some demo_checkpoint) ty ''sgd'' 1 = Inr (?g ps)" for ps ty
    by (simp add: build_optim_fresh) (simp add: resume_opt_def demo_opt_def)
  have lr: "g_optim ?opt' = ''sgd''" "d_optim ?opt' = ''sgd''" "nli_optim ?opt' = ''sgd''"
    "g_learning_rate ?opt' = 1" "d_learning_rate ?opt' = 1" "nli_learning_rate ?opt' = 1"
    by (simp_all add: resume_opt_def demo_opt_def)
  have u: "[4 .. epochs resume_opt] = [4]"
    by (simp add: resume_opt_fields upto_rec1)
  obtain tr where tm: "train_model demo_ext resume_files ?opt' ''generator'' ''discriminator'' ''nli''
      demo_fields (?g [''generator'']) (?g [''discriminator'']) (?g [''nli'']) ''text'' demo_opt
      = (epoch_loop demo_ext resume_files ?opt' demo_opt demo_fields tr [4]
            :: unit event list \<times> _)"
    by (simp add: train_model_def demo_fields_def Let_def u del: epoch_loop.simps)
  obtain e4 :: "unit event list" where
    te: "train_epoch demo_ext resume_files ?opt' demo_opt demo_fields tr 4 = (e4, Inr tr)"
    using train_epoch_demo [of ?opt' resume_files demo_opt demo_fields tr 4]
    by (auto simp: d)
  have tm2: "train_model demo_ext resume_files ?opt' ''generator'' ''discriminator'' ''nli''
      demo_fields (?g [''generator'']) (?g [''discriminator'']) (?g [''nli'']) ''text'' demo_opt
      = (e4, Inr tr)"
    by (simp add: tm te)
  have ps: "parameters demo_ext x = [x]" for x
    by (simp add: demo_ext_def)
  have dt: "data_type (demo_dataset ''a'') = ''text''"
    by (simp add: demo_dataset_def)
  have m: "main demo_ext resume_files resume_opt =
      ([TorchLoad ''demo.train.pt''] @ [TorchLoad ''demo_e3.pt''] @ [TorchLoad ''demo.vocab.pt''] @
       (e4 @ []), Inr tr)"
    using f by (simp add: main_def gen_next_demo data_demo_opt r c b o lr ps dt tm2)
  from resume_starts_at_next_epoch [OF a1 a2 m]
  have "trained_epochs ([TorchLoad ''demo.train.pt''] @ [TorchLoad ''demo_e3.pt''] @
       [TorchLoad ''demo.vocab.pt''] @ (e4 @ [])) = [4]"
    by (simp add: e resume_opt_fields upto_rec1)
  with e m show ?thesis by blast
qed


section \<open>Properties of the startup checks\<close>











end
